theory Spec2Isabelle
  imports Complex_Main
begin

section \<open>JSON values and the platform's \<open>JSON.parse\<close>\<close>

text \<open>
  The stream transport (\<^verbatim>\<open>createStreamConnection\<close> of the module the components import
  as \<^verbatim>\<open>services/mathAPI\<close>) hands the text after the prefix \<^verbatim>\<open>data: \<close> of every event
  line to \<^verbatim>\<open>JSON.parse\<close>, which is the platform's and not the repository's. A parsed value is a \<open>json\<close>;
  numbers are kept as exact rationals (the rounding of IEEE doubles is not modelled) and
  text is 8-bit (\<open>string\<close>). JSON text beyond ASCII is held as the bytes of its UTF-8
  encoding, as the response body carries it: a character below 128 is one element, any
  other character two to four elements of 128 or more. All that the transport and the
  parser look for (the newline, the prefix, JSON's punctuation, digits and escapes) is
  below 128.
\<close>

datatype json =
    JNull
  | JBool bool
  | JNum rat
  | JStr string
  | JArr "json list"
  | JObj "(string \<times> json) list"

datatype js_error = TypeError | SyntaxError

text \<open>
  Reading a property \<^verbatim>\<open>data.k\<close> of a value that is not \<^verbatim>\<open>null\<close>: \<open>None\<close> is
  \<^verbatim>\<open>undefined\<close>. Of a repeated key the last occurrence counts. Reading a property of
  \<^verbatim>\<open>null\<close> throws; the callers below check for it.
\<close>

fun js_get :: "json \<Rightarrow> string \<Rightarrow> json option" where
  "js_get (JObj kvs) k = map_of (rev kvs) k"
| "js_get _ k = None"

definition is_ws :: "char \<Rightarrow> bool" where
  "is_ws c \<longleftrightarrow> c = CHR '' '' \<or> c = CHR 0x09 \<or> c = CHR 0x0A \<or> c = CHR 0x0D"

definition skip_ws :: "string \<Rightarrow> string" where
  "skip_ws = dropWhile is_ws"

definition is_digit :: "char \<Rightarrow> bool" where
  "is_digit c \<longleftrightarrow> 48 \<le> (of_char c :: nat) \<and> (of_char c :: nat) \<le> 57"

definition digit_val :: "char \<Rightarrow> nat" where
  "digit_val c = of_char c - 48"

definition nat_of_digits :: "string \<Rightarrow> nat" where
  "nat_of_digits = foldl (\<lambda>a c. 10 * a + digit_val c) 0"

definition pow10 :: "int \<Rightarrow> rat" where
  "pow10 e = (if 0 \<le> e then 10 ^ nat e else 1 / 10 ^ nat (- e))"

definition parse_frac :: "string \<Rightarrow> (string \<times> string) option" where
  "parse_frac s =
     (if take 1 s = ''.''
      then (let fs = takeWhile is_digit (drop 1 s)
            in if fs = [] then None else Some (fs, dropWhile is_digit (drop 1 s)))
      else Some ([], s))"

definition parse_exp :: "string \<Rightarrow> (int \<times> string) option" where
  "parse_exp s =
     (if take 1 s = ''e'' \<or> take 1 s = ''E''
      then (let s1 = drop 1 s;
                neg = (take 1 s1 = ''-'');
                s2 = (if neg \<or> take 1 s1 = ''+'' then drop 1 s1 else s1);
                ds = takeWhile is_digit s2
            in if ds = [] then None
               else Some ((if neg then - int (nat_of_digits ds) else int (nat_of_digits ds)),
                          dropWhile is_digit s2))
      else Some (0, s))"

definition parse_number :: "string \<Rightarrow> (json \<times> string) option" where
  "parse_number s =
     (let neg = (take 1 s = ''-'');
          s1 = (if neg then drop 1 s else s);
          ip = takeWhile is_digit s1
      in if ip = [] \<or> (take 1 ip = ''0'' \<and> 1 < length ip) then None
         else
           (case parse_frac (dropWhile is_digit s1) of
              None \<Rightarrow> None
            | Some (fp, s3) \<Rightarrow>
               (case parse_exp s3 of
                  None \<Rightarrow> None
                | Some (ex, s4) \<Rightarrow>
                    Some (JNum ((if neg then - 1 else 1)
                                 * (of_nat (nat_of_digits ip)
                                    + of_nat (nat_of_digits fp) / 10 ^ length fp)
                                 * pow10 ex), s4))))"

definition hex_val :: "char \<Rightarrow> nat option" where
  "hex_val c =
     (let n = (of_char c :: nat)
      in if 48 \<le> n \<and> n \<le> 57 then Some (n - 48)
         else if 65 \<le> n \<and> n \<le> 70 then Some (n - 55)
         else if 97 \<le> n \<and> n \<le> 102 then Some (n - 87)
         else None)"

definition unescape :: "char \<Rightarrow> char option" where
  "unescape e =
     (if e = CHR 0x22 then Some (CHR 0x22)
      else if e = CHR 0x5C then Some (CHR 0x5C)
      else if e = CHR ''/'' then Some (CHR ''/'')
      else if e = CHR ''b'' then Some (CHR 0x08)
      else if e = CHR ''f'' then Some (CHR 0x0C)
      else if e = CHR ''n'' then Some (CHR 0x0A)
      else if e = CHR ''r'' then Some (CHR 0x0D)
      else if e = CHR ''t'' then Some (CHR 0x09)
      else None)"

text \<open>The number written by the four hexadecimal digits of a \<^verbatim>\<open>\uXXXX\<close> escape.\<close>

definition hex4 :: "string \<Rightarrow> int option" where
  "hex4 hs =
     (if length hs = 4 \<and> list_all (\<lambda>h. hex_val h \<noteq> None) hs
      then Some (foldl (\<lambda>a h. 16 * a + int (the (hex_val h))) 0 hs)
      else None)"

text \<open>The UTF-8 encoding of a character, given by its number (below \<open>0x110000\<close>).\<close>

definition utf8 :: "int \<Rightarrow> string" where
  "utf8 n =
     (if n < 0x80 then [char_of n]
      else if n < 0x800 then [char_of (0xC0 + n div 64), char_of (0x80 + n mod 64)]
      else if n < 0x10000 then
        [char_of (0xE0 + n div 4096), char_of (0x80 + n div 64 mod 64), char_of (0x80 + n mod 64)]
      else
        [char_of (0xF0 + n div 262144), char_of (0x80 + n div 4096 mod 64),
         char_of (0x80 + n div 64 mod 64), char_of (0x80 + n mod 64)])"

text \<open>
  The text after \<^verbatim>\<open>\u\<close>: what the escape denotes and how many characters of the text
  it takes. Four hexadecimal digits write one UTF-16 code unit, which every value from
  \<open>0x0000\<close> to \<open>0xFFFF\<close> may be. A high surrogate directly followed by an escaped low
  surrogate is one character above \<open>0xFFFF\<close>, written by both escapes together; a
  surrogate on its own is kept, encoded by the same three-byte scheme.
\<close>

definition unicode_escape :: "string \<Rightarrow> (string \<times> nat) option" where
  "unicode_escape r =
     (case hex4 (take 4 r) of
        None \<Rightarrow> None
      | Some hi \<Rightarrow>
         (if 0xD800 \<le> hi \<and> hi < 0xDC00 \<and> take 2 (drop 4 r) = [CHR 0x5C, CHR ''u''] then
            (case hex4 (take 4 (drop 6 r)) of
               None \<Rightarrow> Some (utf8 hi, 4)
             | Some lo \<Rightarrow>
                (if 0xDC00 \<le> lo \<and> lo < 0xE000
                 then Some (utf8 (0x10000 + (hi - 0xD800) * 1024 + (lo - 0xDC00)), 10)
                 else Some (utf8 hi, 4)))
          else Some (utf8 hi, 4)))"

text \<open>The characters of a string literal after its opening quote, up to the closing one.\<close>

function parse_str :: "string \<Rightarrow> (string \<times> string) option" where
  "parse_str [] = None"
| "parse_str (c # cs) =
     (if c = CHR 0x22 then Some ([], cs)
      else if c = CHR 0x5C then
        (case cs of
           [] \<Rightarrow> None
         | e # r \<Rightarrow>
            (if e = CHR ''u'' then
               (case unicode_escape r of
                  None \<Rightarrow> None
                | Some (bs, k) \<Rightarrow> map_option (\<lambda>(t, rest). (bs @ t, rest)) (parse_str (drop k r)))
             else
               (case unescape e of
                  None \<Rightarrow> None
                | Some ch \<Rightarrow> map_option (\<lambda>(t, rest). (ch # t, rest)) (parse_str r))))
      else if (of_char c :: nat) < 32 then None
      else map_option (\<lambda>(t, rest). (c # t, rest)) (parse_str cs))"
  by pat_completeness auto
termination
  by (relation "measure length") auto

text \<open>
  Values, array elements and object members, by recursive descent. The first argument
  bounds the number of nested calls; \<open>JSON_parse\<close> starts with more than the text can use.
\<close>

fun parse_value :: "nat \<Rightarrow> string \<Rightarrow> (json \<times> string) option"
  and parse_elements :: "nat \<Rightarrow> string \<Rightarrow> (json list \<times> string) option"
  and parse_members :: "nat \<Rightarrow> string \<Rightarrow> ((string \<times> json) list \<times> string) option"
where
  "parse_value 0 s = None"
| "parse_value (Suc n) s =
     (case skip_ws s of
        [] \<Rightarrow> None
      | c # r \<Rightarrow>
         (if c = CHR ''{'' then
            (if take 1 (skip_ws r) = ''}'' then Some (JObj [], drop 1 (skip_ws r))
             else map_option (\<lambda>(kvs, rest). (JObj kvs, rest)) (parse_members n r))
          else if c = CHR ''['' then
            (if take 1 (skip_ws r) = '']'' then Some (JArr [], drop 1 (skip_ws r))
             else map_option (\<lambda>(vs, rest). (JArr vs, rest)) (parse_elements n r))
          else if c = CHR 0x22 then map_option (\<lambda>(t, rest). (JStr t, rest)) (parse_str r)
          else if take 4 (c # r) = ''true'' then Some (JBool True, drop 3 r)
          else if take 5 (c # r) = ''false'' then Some (JBool False, drop 4 r)
          else if take 4 (c # r) = ''null'' then Some (JNull, drop 3 r)
          else parse_number (c # r)))"
| "parse_elements 0 s = None"
| "parse_elements (Suc n) s =
     (case parse_value n s of
        None \<Rightarrow> None
      | Some (v, r) \<Rightarrow>
         (case skip_ws r of
            [] \<Rightarrow> None
          | c # r' \<Rightarrow>
             (if c = CHR '','' then map_option (\<lambda>(vs, rest). (v # vs, rest)) (parse_elements n r')
              else if c = CHR '']'' then Some ([v], r')
              else None)))"
| "parse_members 0 s = None"
| "parse_members (Suc n) s =
     (case skip_ws s of
        [] \<Rightarrow> None
      | q # r \<Rightarrow>
         (if q \<noteq> CHR 0x22 then None
          else
            (case parse_str r of
               None \<Rightarrow> None
             | Some (k, r1) \<Rightarrow>
                (case skip_ws r1 of
                   [] \<Rightarrow> None
                 | col # r2 \<Rightarrow>
                    (if col \<noteq> CHR '':'' then None
                     else
                       (case parse_value n r2 of
                          None \<Rightarrow> None
                        | Some (v, r3) \<Rightarrow>
                           (case skip_ws r3 of
                              [] \<Rightarrow> None
                            | c # r4 \<Rightarrow>
                               (if c = CHR '','' then
                                  map_option (\<lambda>(kvs, rest). ((k, v) # kvs, rest)) (parse_members n r4)
                                else if c = CHR ''}'' then Some ([(k, v)], r4)
                                else None))))))))"

text \<open>\<^verbatim>\<open>JSON.parse(text)\<close>: \<open>None\<close> stands for the \<^verbatim>\<open>SyntaxError\<close> it throws.\<close>

definition JSON_parse :: "string \<Rightarrow> json option" where
  "JSON_parse s =
     (case parse_value (2 * length s + 2) s of
        None \<Rightarrow> None
      | Some (v, r) \<Rightarrow> if skip_ws r = [] then Some v else None)"


section \<open>The stream transport (\<^verbatim>\<open>createStreamConnection\<close>)\<close>

text \<open>
  The callbacks a caller may pass to \<^verbatim>\<open>createStreamConnection\<close>. A callback bag is
  modelled by the set of names it defines: \<open>callbacks cb\<close> holds when \<^verbatim>\<open>callbacks.cb\<close>
  is a function. What the transport does is recorded as a list of effects, in order: the
  callbacks it invokes, with their argument, and the errors it logs. The callbacks
  themselves are taken not to throw.
\<close>

datatype cbname =
    OnConnect
  | OnProcessingStart
  | OnRouting
  | OnRoutingResult
  | OnStepUpdate
  | OnStepGenerated
  | OnSolutionComplete
  | OnCompletion
  | OnError
  | OnUnknownEvent
  | OnConnectionError

type_synonym callbacks = "cbname \<Rightarrow> bool"

datatype effect =
    Invoke cbname json
  | LogParseError
  | LogStreamError

text \<open>The \<^verbatim>\<open>switch (data.type)\<close> of \<^verbatim>\<open>handleStreamEvent\<close>; cases compare with \<^verbatim>\<open>===\<close>.\<close>

fun switch_type :: "json option \<Rightarrow> cbname" where
  "switch_type (Some (JStr t)) =
     (if t = ''connected'' then OnConnect
      else if t = ''processing_started'' then OnProcessingStart
      else if t = ''routing'' then OnRouting
      else if t = ''routing_result'' then OnRoutingResult
      else if t = ''step_update'' then OnStepUpdate
      else if t = ''step_generated'' then OnStepGenerated
      else if t = ''solution_complete'' then OnSolutionComplete
      else if t = ''completion'' then OnCompletion
      else if t = ''error'' then OnError
      else OnUnknownEvent)"
| "switch_type _ = OnUnknownEvent"

text \<open>
  \<^verbatim>\<open>handleStreamEvent(data, callbacks)\<close>. Reading \<^verbatim>\<open>data.type\<close> of \<^verbatim>\<open>null\<close> throws a
  \<^verbatim>\<open>TypeError\<close>; \<^verbatim>\<open>callbacks.cb?.(data)\<close> calls the callback when it is defined.
\<close>

definition handleStreamEvent :: "json \<Rightarrow> callbacks \<Rightarrow> js_error + effect list" where
  "handleStreamEvent data callbacks =
     (if data = JNull then Inl TypeError
      else (let cb = switch_type (js_get data ''type'')
            in Inr (if callbacks cb then [Invoke cb data] else [])))"

text \<open>\<^verbatim>\<open>chunk.split('\n')\<close>: the pieces between newlines, always at least one.\<close>

fun split_nl :: "string \<Rightarrow> string list" where
  "split_nl [] = [[]]"
| "split_nl (c # cs) =
     (if c = CHR 0x0A then [] # split_nl cs
      else (case split_nl cs of
              [] \<Rightarrow> [[c]]
            | l # ls \<Rightarrow> (c # l) # ls))"

text \<open>
  The body of \<^verbatim>\<open>for (const line of lines)\<close>. The \<^verbatim>\<open>try\<close> block parses the text after
  the prefix, reads \<^verbatim>\<open>data.type\<close> for the console (which throws on \<^verbatim>\<open>null\<close>) and
  dispatches; whatever is thrown inside is caught, logged, and the loop goes on. The
  parser is a parameter: \<open>None\<close> stands for its \<^verbatim>\<open>SyntaxError\<close>.
\<close>

definition handle_line :: "(string \<Rightarrow> json option) \<Rightarrow> callbacks \<Rightarrow> string \<Rightarrow> effect list" where
  "handle_line parse callbacks line =
     (if take 6 line = ''data: '' then
        (case parse (drop 6 line) of
           None \<Rightarrow> [LogParseError]
         | Some data \<Rightarrow>
            (if data = JNull then [LogParseError]
             else (case handleStreamEvent data callbacks of
                     Inl e \<Rightarrow> [LogParseError]
                   | Inr effs \<Rightarrow> effs)))
      else [])"

fun process_lines :: "(string \<Rightarrow> json option) \<Rightarrow> callbacks \<Rightarrow> string list \<Rightarrow> effect list" where
  "process_lines parse callbacks [] = []"
| "process_lines parse callbacks (line # lines) =
     handle_line parse callbacks line @ process_lines parse callbacks lines"

text \<open>
  What successive calls of \<^verbatim>\<open>await reader.read()\<close> settle to: a chunk (its decoded
  text), \<^verbatim>\<open>done\<close>, or a rejection with an error message.
\<close>

datatype read_result = Value string | Done | Rejected string

text \<open>
  \<^verbatim>\<open>processStream\<close>: the \<^verbatim>\<open>while (true)\<close> loop over the results of the reads. Each chunk
  is decoded, split at newlines and its lines handled; \<^verbatim>\<open>done\<close> leaves the loop; a
  rejected read is caught outside the loop, logged and reported through \<^verbatim>\<open>onError\<close>.
  When the list is exhausted the next read never settles and the loop stays suspended.
\<close>

fun processStream :: "(string \<Rightarrow> json option) \<Rightarrow> callbacks \<Rightarrow> read_result list \<Rightarrow> effect list" where
  "processStream parse callbacks [] = []"
| "processStream parse callbacks (Value chunk # rs) =
     process_lines parse callbacks (split_nl chunk) @ processStream parse callbacks rs"
| "processStream parse callbacks (Done # rs) = []"
| "processStream parse callbacks (Rejected msg # rs) =
     LogStreamError #
     (if callbacks OnError then [Invoke OnError (JObj [(''message'', JStr msg)])] else [])"

text \<open>
  The reader is the platform's \<^verbatim>\<open>ReadableStreamDefaultReader\<close> over the response body
  (\<^verbatim>\<open>response.body.getReader()\<close>). The stream behind it is modelled by what the Streams
  standard keeps for it: its state (\<^verbatim>\<open>readable\<close>, \<^verbatim>\<open>closed\<close>, or \<^verbatim>\<open>errored\<close> with the
  stored error), the queue of the chunks that have arrived and have not been read, and
  whether its close has been requested.
\<close>

datatype stream_state = Readable | Closed | Errored string

record body_stream =
  state :: stream_state
  queue :: "string list"
  closeRequested :: bool

definition fresh_stream :: body_stream where
  "fresh_stream = \<lparr>state = Readable, queue = [], closeRequested = False\<rparr>"

text \<open>
  What the network does to the stream. A chunk arrives (\<^verbatim>\<open>controller.enqueue\<close>): it
  joins the queue if the stream is readable and its close has not been requested, and is
  refused otherwise. The response ends (\<^verbatim>\<open>controller.close\<close>): the close is requested,
  and the stream is closed at once when nothing is queued, else when the queue has been
  read. The connection fails (\<^verbatim>\<open>controller.error\<close>): a readable stream drops its queue
  and becomes errored; a closed or errored one stays as it is.
\<close>

definition controller_enqueue :: "string \<Rightarrow> body_stream \<Rightarrow> body_stream" where
  "controller_enqueue chunk s =
     (if state s = Readable \<and> \<not> closeRequested s then s\<lparr>queue := queue s @ [chunk]\<rparr> else s)"

definition controller_close :: "body_stream \<Rightarrow> body_stream" where
  "controller_close s =
     (if state s = Readable \<and> \<not> closeRequested s
      then s\<lparr>closeRequested := True, state := (if queue s = [] then Closed else Readable)\<rparr>
      else s)"

definition controller_error :: "string \<Rightarrow> body_stream \<Rightarrow> body_stream" where
  "controller_error msg s =
     (if state s = Readable then s\<lparr>state := Errored msg, queue := []\<rparr> else s)"

text \<open>
  \<^verbatim>\<open>reader.read()\<close>: on a closed stream it settles with \<^verbatim>\<open>done\<close>, on an errored one it
  rejects with the stored error, on a readable one it takes the first queued chunk (and
  closes the stream if that was the last one and the close has been requested). With
  nothing queued the read stays pending: \<open>None\<close>.
\<close>

definition reader_read :: "body_stream \<Rightarrow> read_result option \<times> body_stream" where
  "reader_read s =
     (case state s of
        Closed \<Rightarrow> (Some Done, s)
      | Errored msg \<Rightarrow> (Some (Rejected msg), s)
      | Readable \<Rightarrow>
         (case queue s of
            [] \<Rightarrow> (None, s)
          | chunk # rest \<Rightarrow>
             (Some (Value chunk),
              s\<lparr>queue := rest,
                state := (if closeRequested s \<and> rest = [] then Closed else Readable)\<rparr>)))"

text \<open>
  \<^verbatim>\<open>reader.cancel()\<close> returns a promise. On a closed stream it is fulfilled and nothing
  changes; on an errored stream it is rejected with the stored error and nothing
  changes; a readable stream is closed and its queue dropped.
\<close>

datatype settled = Fulfilled | RejectedWith string

definition reader_cancel :: "body_stream \<Rightarrow> settled \<times> body_stream" where
  "reader_cancel s =
     (case state s of
        Closed \<Rightarrow> (Fulfilled, s)
      | Errored msg \<Rightarrow> (RejectedWith msg, s)
      | Readable \<Rightarrow> (Fulfilled, s\<lparr>state := Closed, queue := []\<rparr>))"

text \<open>
  The function \<^verbatim>\<open>createStreamConnection\<close> returns: it writes to the console and calls
  \<^verbatim>\<open>reader.cancel()\<close>. It invokes no callback, it has no \<^verbatim>\<open>throw\<close>, and it neither
  returns nor awaits the promise of the cancel, whose outcome is the first component
  here: a rejection is handled by nobody.
\<close>

definition cleanup :: "body_stream \<Rightarrow> settled \<times> body_stream" where
  "cleanup s = reader_cancel s"

text \<open>
  What happens to the stream of one connection, in order: a chunk arrives, the response
  ends, the connection fails, the cleanup function is called, or a read of the loop is
  answered. \<open>Read\<close> stands for the moment the loop's \<^verbatim>\<open>await reader.read()\<close> gets its
  answer; the loop handles a chunk in one go, without yielding, before it reads again,
  so everything else falls between two reads. A read that waits for a chunk and is
  answered when it arrives is \<open>Enqueue\<close> followed by \<open>Read\<close>.
\<close>

datatype reader_event = Enqueue string | Close | Fail string | Cancel | Read

fun stream_step :: "body_stream \<Rightarrow> reader_event \<Rightarrow> body_stream" where
  "stream_step s (Enqueue chunk) = controller_enqueue chunk s"
| "stream_step s Close = controller_close s"
| "stream_step s (Fail msg) = controller_error msg s"
| "stream_step s Cancel = snd (cleanup s)"
| "stream_step s Read = snd (reader_read s)"

fun stream_after :: "body_stream \<Rightarrow> reader_event list \<Rightarrow> body_stream" where
  "stream_after s [] = s"
| "stream_after s (e # evs) = stream_after (stream_step s e) evs"

text \<open>The answers the loop's reads get in the course of the events.\<close>

fun reader_reads :: "body_stream \<Rightarrow> reader_event list \<Rightarrow> read_result list" where
  "reader_reads s [] = []"
| "reader_reads s (Read # evs) =
     (case reader_read s of
        (None, s') \<Rightarrow> reader_reads s' evs
      | (Some r, s') \<Rightarrow> r # reader_reads s' evs)"
| "reader_reads s (e # evs) = reader_reads (stream_step s e) evs"

text \<open>
  The transport of one connection: \<^verbatim>\<open>processStream\<close> running on the reader of a fresh
  response body, to which the events happen.
\<close>

definition transport :: "(string \<Rightarrow> json option) \<Rightarrow> callbacks \<Rightarrow> reader_event list \<Rightarrow> effect list" where
  "transport parse callbacks evs = processStream parse callbacks (reader_reads fresh_stream evs)"

text \<open>The wire text of a list of event lines: each line followed by a newline.\<close>

definition event_text :: "string list \<Rightarrow> string" where
  "event_text lines = concat (map (\<lambda>l. l @ [CHR 0x0A]) lines)"

text \<open>
  The dispatch table as the specification words it: nine named event types, each with
  its callback; any other type goes to the catch-all.
\<close>

definition event_table :: "(string \<times> cbname) list" where
  "event_table =
     [(''connected'', OnConnect),
      (''processing_started'', OnProcessingStart),
      (''routing'', OnRouting),
      (''routing_result'', OnRoutingResult),
      (''step_update'', OnStepUpdate),
      (''step_generated'', OnStepGenerated),
      (''solution_complete'', OnSolutionComplete),
      (''completion'', OnCompletion),
      (''error'', OnError)]"

definition spec_target :: "json \<Rightarrow> cbname" where
  "spec_target data =
     (case js_get data ''type'' of
        Some (JStr t) \<Rightarrow> (case map_of event_table t of Some cb \<Rightarrow> cb | None \<Rightarrow> OnUnknownEvent)
      | _ \<Rightarrow> OnUnknownEvent)"


section \<open>Messages and the conversation history\<close>

text \<open>
  The session callbacks read an envelope at the types the wire protocol gives its fields;
  \<open>payload\<close> is the envelope seen that way, with \<open>None\<close> for a field that is absent.
  A solution is the \<^verbatim>\<open>data\<close> of a \<^verbatim>\<open>solution_complete\<close> envelope.
\<close>

record step =
  step_text :: "string option"
  step_type :: "string option"

record solution =
  steps :: "step list"
  final_answer :: "string option"
  confidence :: "rat option"
  route :: "string option"
  conversational_response :: "string option"
  question :: "string option"

record payload =
  p_message :: "string option"
  p_progress :: "rat option"
  p_route :: "string option"
  p_confidence :: "rat option"
  p_step_number :: "nat option"
  p_total_steps :: "nat option"
  p_step_data :: "step option"
  p_data :: "solution option"

text \<open>\<^verbatim>\<open>v || d\<close> on text and on numbers: the empty string, zero and an absent value are falsy.\<close>

definition or_str :: "string option \<Rightarrow> string \<Rightarrow> string" where
  "or_str v d = (case v of None \<Rightarrow> d | Some s \<Rightarrow> if s = [] then d else s)"

definition or_num :: "rat option \<Rightarrow> rat \<Rightarrow> rat" where
  "or_num v d = (case v of None \<Rightarrow> d | Some x \<Rightarrow> if x = 0 then d else x)"

text \<open>\<^verbatim>\<open>String.prototype.trim\<close> over 8-bit text.\<close>

definition is_js_space :: "char \<Rightarrow> bool" where
  "is_js_space c \<longleftrightarrow> (of_char c :: nat) \<in> {9, 10, 11, 12, 13, 32, 160}"

definition js_trim :: "string \<Rightarrow> string" where
  "js_trim s = rev (dropWhile is_js_space (rev (dropWhile is_js_space s)))"

fun show_nat :: "nat \<Rightarrow> string" where
  "show_nat n =
     (if n < 10 then [char_of (48 + n)]
      else show_nat (n div 10) @ [char_of (48 + n mod 10)])"

declare show_nat.simps [simp del]

record history_entry =
  role :: string
  content :: string
  entry_request_type :: string

record feedback_details =
  rating :: int
  improvement_triggered :: bool

text \<open>
  A chat message. Fields a message object does not define are \<open>None\<close> (or \<open>False\<close> for
  the flags, which the code only tests for truth). The closure stored under
  \<^verbatim>\<open>onSolutionComplete\<close> is determined by the message id it captured, which is what the
  field holds here; \<open>timestamp\<close> is the clock reading.
\<close>

record message =
  msg_id :: string
  msg_text :: string
  isUser :: bool
  timestamp :: nat
  originalQuestion :: "string option"
  streaming_session_id :: "string option"
  solution :: "solution option"
  showFeedback :: bool
  isError :: bool
  feedbackSubmitted :: bool
  feedbackDetails :: "feedback_details option"
  request_type :: "string option"
  conversationHistory :: "history_entry list option"
  onSolutionComplete :: "string option"

text \<open>\<^verbatim>\<open>buildConversationHistory\<close> of \<^verbatim>\<open>ChatInterface\<close>: a filter and a map.\<close>

definition history_entry_of :: "message \<Rightarrow> history_entry" where
  "history_entry_of msg =
     \<lparr>role = (if isUser msg then ''user'' else ''assistant''),
      content = msg_text msg,
      entry_request_type = or_str (request_type msg) ''unknown''\<rparr>"

definition buildConversationHistory :: "message list \<Rightarrow> history_entry list" where
  "buildConversationHistory currentMessages =
     map history_entry_of
       (filter (\<lambda>msg. msg_text msg \<noteq> [] \<and> js_trim (msg_text msg) \<noteq> []) currentMessages)"

text \<open>
  The projection written inline in \<^verbatim>\<open>sendMessage\<close> of \<^verbatim>\<open>ConversationalMathTutor\<close>:
  the same map without the filter. Its result is only written to the console.
\<close>

definition sendMessage_history :: "message list \<Rightarrow> history_entry list" where
  "sendMessage_history messages = map history_entry_of messages"

text \<open>A message object with the given text and sender and no other field defined.\<close>

definition bare_message :: "string \<Rightarrow> bool \<Rightarrow> message" where
  "bare_message t u =
     \<lparr>msg_id = [], msg_text = t, isUser = u, timestamp = 0, originalQuestion = None,
      streaming_session_id = None, solution = None, showFeedback = False, isError = False,
      feedbackSubmitted = False, feedbackDetails = None, request_type = None,
      conversationHistory = None, onSolutionComplete = None\<rparr>"

section \<open>The message store\<close>

text \<open>
  Every write to a message has the shape
  \<^verbatim>\<open>prev.map(msg => msg.id === id ? {...msg, <fields>} : msg)\<close>. A \<open>patch\<close> is the object
  literal spread over the message: for each field, the new value if the patch names it.
\<close>

record patch =
  set_msg_id :: "string option"
  set_msg_text :: "string option"
  set_isUser :: "bool option"
  set_timestamp :: "nat option"
  set_originalQuestion :: "string option option"
  set_streaming_session_id :: "string option option"
  set_solution :: "solution option option"
  set_showFeedback :: "bool option"
  set_isError :: "bool option"
  set_feedbackSubmitted :: "bool option"
  set_feedbackDetails :: "feedback_details option option"
  set_request_type :: "string option option"
  set_conversationHistory :: "history_entry list option option"
  set_onSolutionComplete :: "string option option"

definition no_patch :: patch where
  "no_patch =
     \<lparr>set_msg_id = None, set_msg_text = None, set_isUser = None, set_timestamp = None,
      set_originalQuestion = None, set_streaming_session_id = None, set_solution = None,
      set_showFeedback = None, set_isError = None, set_feedbackSubmitted = None,
      set_feedbackDetails = None, set_request_type = None, set_conversationHistory = None,
      set_onSolutionComplete = None\<rparr>"

definition override :: "'a option \<Rightarrow> 'a \<Rightarrow> 'a" where
  "override new old = (case new of None \<Rightarrow> old | Some v \<Rightarrow> v)"

definition apply_patch :: "patch \<Rightarrow> message \<Rightarrow> message" where
  "apply_patch p msg =
     \<lparr>msg_id = override (set_msg_id p) (msg_id msg),
      msg_text = override (set_msg_text p) (msg_text msg),
      isUser = override (set_isUser p) (isUser msg),
      timestamp = override (set_timestamp p) (timestamp msg),
      originalQuestion = override (set_originalQuestion p) (originalQuestion msg),
      streaming_session_id = override (set_streaming_session_id p) (streaming_session_id msg),
      solution = override (set_solution p) (solution msg),
      showFeedback = override (set_showFeedback p) (showFeedback msg),
      isError = override (set_isError p) (isError msg),
      feedbackSubmitted = override (set_feedbackSubmitted p) (feedbackSubmitted msg),
      feedbackDetails = override (set_feedbackDetails p) (feedbackDetails msg),
      request_type = override (set_request_type p) (request_type msg),
      conversationHistory = override (set_conversationHistory p) (conversationHistory msg),
      onSolutionComplete = override (set_onSolutionComplete p) (onSolutionComplete msg)\<rparr>"

definition updateById :: "string \<Rightarrow> patch \<Rightarrow> message list \<Rightarrow> message list" where
  "updateById k p msgs = map (\<lambda>msg. if msg_id msg = k then apply_patch p msg else msg) msgs"

text \<open>The two patches of \<^verbatim>\<open>ConversationalMathTutor\<close>, as patches.\<close>

definition solution_patch :: "solution \<Rightarrow> patch" where
  "solution_patch completedSolution =
     no_patch
       \<lparr>set_solution := Some (Some completedSolution),
        set_msg_text := Some (or_str (conversational_response completedSolution)
                               ''I've solved your math problem! Here's the solution:''),
        set_streaming_session_id := Some None\<rparr>"

definition feedback_patch :: patch where
  "feedback_patch = no_patch\<lparr>set_feedbackSubmitted := Some True\<rparr>"

section \<open>\<^verbatim>\<open>ConversationalMathTutor\<close>\<close>

text \<open>
  The state of the component: the message list, the loading flag and the
  \<^verbatim>\<open>isProcessing\<close> ref; \<open>sessionId\<close> is fixed when the component is created.
\<close>

record tutor =
  messages :: "message list"
  loading :: bool
  isProcessing :: bool
  sessionId :: string

text \<open>
  \<^verbatim>\<open>sendMessage(question)\<close>; \<open>now\<close> is what \<^verbatim>\<open>Date.now()\<close> returns during the call.
  Nothing inside its \<^verbatim>\<open>try\<close> block can throw on a message list of this type, so the
  \<^verbatim>\<open>catch\<close> branch is never taken.
\<close>

definition sendMessage :: "nat \<Rightarrow> string \<Rightarrow> tutor \<Rightarrow> tutor" where
  "sendMessage now question' s =
     (if js_trim question' = [] \<or> isProcessing s then s
      else
        (let userMessage =
               \<lparr>msg_id = ''user_'' @ show_nat now, msg_text = question', isUser = True,
                timestamp = now, originalQuestion = Some question',
                streaming_session_id = None, solution = None, showFeedback = False,
                isError = False, feedbackSubmitted = False, feedbackDetails = None,
                request_type = None, conversationHistory = None, onSolutionComplete = None\<rparr>;
             aiMessage =
               \<lparr>msg_id = ''ai_'' @ show_nat now,
                msg_text = ''I'm analyzing your math problem and will solve it step by step...'',
                isUser = False, timestamp = now, originalQuestion = Some question',
                streaming_session_id = Some (sessionId s), solution = None,
                showFeedback = True, isError = False, feedbackSubmitted = False,
                feedbackDetails = None, request_type = None, conversationHistory = None,
                onSolutionComplete = Some (''ai_'' @ show_nat now)\<rparr>
         in s\<lparr>isProcessing := True,
              messages := (messages s @ [userMessage]) @ [aiMessage],
              loading := True\<rparr>))"

text \<open>
  The closure \<^verbatim>\<open>aiMessage.onSolutionComplete\<close>; \<open>aid\<close> is the \<^verbatim>\<open>aiMessage.id\<close> it
  captured. Called without a solution it reads a property of \<^verbatim>\<open>undefined\<close> when the
  update is applied.
\<close>

definition tutor_onSolutionComplete :: "string \<Rightarrow> solution option \<Rightarrow> tutor \<Rightarrow> js_error + tutor" where
  "tutor_onSolutionComplete aid completedSolution s =
     (case completedSolution of
        None \<Rightarrow> Inl TypeError
      | Some sol \<Rightarrow>
          Inr (s\<lparr>messages :=
                   map (\<lambda>msg. if msg_id msg = aid
                              then msg\<lparr>solution := Some sol,
                                      msg_text := or_str (conversational_response sol)
                                        ''I've solved your math problem! Here's the solution:'',
                                      streaming_session_id := None\<rparr>
                              else msg) (messages s),
                 loading := False,
                 isProcessing := False\<rparr>))"

text \<open>
  \<^verbatim>\<open>handleFeedback(messageId, feedbackData)\<close> of \<^verbatim>\<open>ConversationalMathTutor\<close>;
  \<open>accepted\<close> tells whether the awaited \<^verbatim>\<open>submitFeedback\<close> call resolves.
\<close>

definition tutor_handleFeedback :: "string \<Rightarrow> bool \<Rightarrow> tutor \<Rightarrow> tutor" where
  "tutor_handleFeedback messageId accepted s =
     (case find (\<lambda>m. msg_id m = messageId) (messages s) of
        None \<Rightarrow> s
      | Some message' \<Rightarrow>
          (if solution message' \<noteq> None \<and> accepted
           then s\<lparr>messages :=
                    map (\<lambda>m. if msg_id m = messageId then m\<lparr>feedbackSubmitted := True\<rparr> else m)
                        (messages s)\<rparr>
           else s))"

text \<open>
  The streaming displays the message list brings about: a message bubble shows one for a
  message with \<^verbatim>\<open>message.streaming_session_id && !message.solution\<close>.
\<close>

definition streaming_messages :: "message list \<Rightarrow> message list" where
  "streaming_messages msgs =
     filter (\<lambda>m. streaming_session_id m \<noteq> None \<and> streaming_session_id m \<noteq> Some []
                 \<and> solution m = None) msgs"


section \<open>\<^verbatim>\<open>StreamingSolutionDisplay\<close>: the session state\<close>

text \<open>
  A JavaScript number that arithmetic on step counts can produce: a finite value (kept
  exact), \<^verbatim>\<open>Infinity\<close>, or \<^verbatim>\<open>NaN\<close>.
\<close>

datatype jsnum = Fin rat | PosInf | NaN

text \<open>
  \<^verbatim>\<open>50 + (data.step_number / data.total_steps) * 30\<close>. A missing operand makes the
  quotient \<^verbatim>\<open>NaN\<close>; a zero divisor makes it \<^verbatim>\<open>Infinity\<close> or \<^verbatim>\<open>NaN\<close>.
\<close>

definition step_progress :: "nat option \<Rightarrow> nat option \<Rightarrow> jsnum" where
  "step_progress k n =
     (case (k, n) of
        (Some a, Some b) \<Rightarrow>
          (if b \<noteq> 0 then Fin (50 + (of_nat a / of_nat b) * 30)
           else if a \<noteq> 0 then PosInf else NaN)
      | _ \<Rightarrow> NaN)"

text \<open>
  The text shown as the current step: plain text, or one of the two templates, kept by
  their ingredients (the rendering of the numbers is not modelled).
\<close>

datatype step_label =
    Label string
  | RouteLabel "string option" "rat option"
  | ErrorLabel "string option"

record streamed_step =
  ss_text :: "string option"
  ss_type :: "string option"
  stepNumber :: "nat option"
  ss_isStreaming :: bool

record display =
  streamedSteps :: "streamed_step list"
  finalSolution :: "solution option"
  isStreaming :: bool
  progress :: jsnum
  currentStep :: "step_label option"
  routeInfo :: "payload option"

text \<open>The initial \<^verbatim>\<open>useState\<close> values, and the resets the effect makes before it connects.\<close>

definition display_init :: display where
  "display_init =
     \<lparr>streamedSteps = [], finalSolution = None, isStreaming = False, progress = Fin 0,
      currentStep = Some (Label []), routeInfo = None\<rparr>"

definition display_start :: "display \<Rightarrow> display" where
  "display_start d =
     d\<lparr>isStreaming := True, streamedSteps := [], finalSolution := None, progress := Fin 0\<rparr>"

definition display_onProcessingStart :: "payload \<Rightarrow> display \<Rightarrow> display" where
  "display_onProcessingStart data d =
     d\<lparr>currentStep := Some (Label (or_str (p_message data) ''Starting to solve your math problem...'')),
       progress := Fin 10\<rparr>"

definition display_onRouting :: "payload \<Rightarrow> display \<Rightarrow> display" where
  "display_onRouting data d =
     d\<lparr>currentStep := Some (Label (or_str (p_message data)
                               ''Checking knowledge base for similar problems...'')),
       progress := Fin 25\<rparr>"

definition display_onRoutingResult :: "payload \<Rightarrow> display \<Rightarrow> display" where
  "display_onRoutingResult data d =
     d\<lparr>routeInfo := Some data,
       currentStep :=
         Some (case p_message data of
                 None \<Rightarrow> RouteLabel (p_route data) (p_confidence data)
               | Some m \<Rightarrow> if m = [] then RouteLabel (p_route data) (p_confidence data)
                           else Label m),
       progress := Fin 40\<rparr>"

definition display_onStepUpdate :: "payload \<Rightarrow> display \<Rightarrow> display" where
  "display_onStepUpdate data d =
     d\<lparr>currentStep := map_option Label (p_message data),
       progress := Fin (or_num (p_progress data) 50)\<rparr>"

definition display_onStepGenerated :: "payload \<Rightarrow> display \<Rightarrow> display" where
  "display_onStepGenerated data d =
     d\<lparr>streamedSteps :=
         streamedSteps d @
           [\<lparr>ss_text = (case p_step_data data of None \<Rightarrow> None | Some sd \<Rightarrow> step_text sd),
             ss_type = (case p_step_data data of None \<Rightarrow> None | Some sd \<Rightarrow> step_type sd),
             stepNumber = p_step_number data,
             ss_isStreaming = True\<rparr>],
       progress := step_progress (p_step_number data) (p_total_steps data)\<rparr>"

definition display_onSolutionComplete :: "payload \<Rightarrow> display \<Rightarrow> display" where
  "display_onSolutionComplete data d =
     d\<lparr>finalSolution := p_data data,
       currentStep := Some (Label ''Solution complete!''),
       progress := Fin 100,
       isStreaming := False\<rparr>"

definition display_onCompletion :: "payload \<Rightarrow> display \<Rightarrow> display" where
  "display_onCompletion data d =
     d\<lparr>currentStep := Some (Label (or_str (p_message data) ''Finalizing solution...'')),
       progress := Fin (or_num (p_progress data) 95)\<rparr>"

definition display_onError :: "payload \<Rightarrow> display \<Rightarrow> display" where
  "display_onError data d =
     d\<lparr>currentStep := Some (ErrorLabel (p_message data)), isStreaming := False\<rparr>"

definition display_onConnectionError :: "display \<Rightarrow> display" where
  "display_onConnectionError d =
     d\<lparr>currentStep := Some (Label ''Connection error occurred''), isStreaming := False\<rparr>"

text \<open>
  The callback bag the display passes to \<^verbatim>\<open>createStreamConnection\<close>, by name; it
  defines no \<^verbatim>\<open>onUnknownEvent\<close>, and its \<^verbatim>\<open>onConnect\<close> only writes to the console.
  This is what an invocation does to the display's own state.
\<close>

definition display_callbacks :: callbacks where
  "display_callbacks cb = (cb \<noteq> OnUnknownEvent)"

fun display_deliver :: "cbname \<Rightarrow> payload \<Rightarrow> display \<Rightarrow> display" where
  "display_deliver OnConnect data d = d"
| "display_deliver OnProcessingStart data d = display_onProcessingStart data d"
| "display_deliver OnRouting data d = display_onRouting data d"
| "display_deliver OnRoutingResult data d = display_onRoutingResult data d"
| "display_deliver OnStepUpdate data d = display_onStepUpdate data d"
| "display_deliver OnStepGenerated data d = display_onStepGenerated data d"
| "display_deliver OnSolutionComplete data d = display_onSolutionComplete data d"
| "display_deliver OnCompletion data d = display_onCompletion data d"
| "display_deliver OnError data d = display_onError data d"
| "display_deliver OnUnknownEvent data d = d"
| "display_deliver OnConnectionError data d = display_onConnectionError d"

text \<open>The progress value after each event of a sequence, in order.\<close>

fun progress_trace :: "display \<Rightarrow> (cbname \<times> payload) list \<Rightarrow> jsnum list" where
  "progress_trace d [] = []"
| "progress_trace d (ev # evs) =
     progress (display_deliver (fst ev) (snd ev) d)
       # progress_trace (display_deliver (fst ev) (snd ev) d) evs"

text \<open>\<^verbatim>\<open>a <= b\<close> on these numbers; every comparison with \<^verbatim>\<open>NaN\<close> is false.\<close>

fun jsnum_le :: "jsnum \<Rightarrow> jsnum \<Rightarrow> bool" where
  "jsnum_le (Fin a) (Fin b) = (a \<le> b)"
| "jsnum_le (Fin a) PosInf = True"
| "jsnum_le PosInf PosInf = True"
| "jsnum_le _ _ = False"

fun nondecreasing :: "jsnum list \<Rightarrow> bool" where
  "nondecreasing (a # b # xs) = (jsnum_le a b \<and> nondecreasing (b # xs))"
| "nondecreasing _ = True"

text \<open>An envelope with all fields absent, and the event sequence of one question.\<close>

definition no_payload :: payload where
  "no_payload =
     \<lparr>p_message = None, p_progress = None, p_route = None, p_confidence = None,
      p_step_number = None, p_total_steps = None, p_step_data = None, p_data = None\<rparr>"

definition step_generated_event :: "nat \<Rightarrow> nat \<Rightarrow> cbname \<times> payload" where
  "step_generated_event n k =
     (OnStepGenerated, no_payload\<lparr>p_step_number := Some k, p_total_steps := Some n\<rparr>)"

definition question_events ::
  "payload \<Rightarrow> payload \<Rightarrow> payload \<Rightarrow> payload list \<Rightarrow> nat \<Rightarrow> payload \<Rightarrow> payload
     \<Rightarrow> (cbname \<times> payload) list" where
  "question_events started routing' routed updates n completion' completed =
     [(OnProcessingStart, started), (OnRouting, routing'), (OnRoutingResult, routed)]
       @ map (Pair OnStepUpdate) updates
       @ map (step_generated_event n) [1..<Suc n]
       @ [(OnCompletion, completion'), (OnSolutionComplete, completed)]"

section \<open>The message bubble and the owning message\<close>

text \<open>
  How the framework renders is not modelled, only what the handlers do to the state.
  \<^verbatim>\<open>MessageBubble\<close> shows the streaming display while
  \<^verbatim>\<open>showStreamingSolution && streamingSessionId\<close>; the display's \<^verbatim>\<open>onComplete\<close> is the
  bubble's \<^verbatim>\<open>handleStreamingComplete\<close>, which calls the closure stored in the message.
\<close>

record bubble =
  showStreamingSolution :: bool
  streamingSessionId :: "string option"

definition display_shown :: "bubble \<Rightarrow> bool" where
  "display_shown b \<longleftrightarrow>
     showStreamingSolution b \<and> streamingSessionId b \<noteq> None \<and> streamingSessionId b \<noteq> Some []"

record app =
  app_display :: display
  app_bubble :: bubble
  app_tutor :: tutor

definition handleStreamingComplete :: "message \<Rightarrow> solution option \<Rightarrow> app \<Rightarrow> js_error + app" where
  "handleStreamingComplete message' completedSolution a =
     (case onSolutionComplete message' of
        None \<Rightarrow>
          Inr (a\<lparr>app_bubble := \<lparr>showStreamingSolution = False, streamingSessionId = None\<rparr>\<rparr>)
      | Some aid \<Rightarrow>
          (case tutor_onSolutionComplete aid completedSolution (app_tutor a) of
             Inl e \<Rightarrow> Inl e
           | Inr t \<Rightarrow>
               Inr (a\<lparr>app_tutor := t,
                      app_bubble := \<lparr>showStreamingSolution = False, streamingSessionId = None\<rparr>\<rparr>)))"

text \<open>
  One callback invocation on the whole: the display's own state changes, and
  \<^verbatim>\<open>onSolutionComplete\<close> then calls \<^verbatim>\<open>onComplete(data.data)\<close>. \<open>message'\<close> is the message
  the bubble renders.
\<close>

definition app_deliver :: "message \<Rightarrow> cbname \<times> payload \<Rightarrow> app \<Rightarrow> js_error + app" where
  "app_deliver message' ev a =
     (let a' = a\<lparr>app_display := display_deliver (fst ev) (snd ev) (app_display a)\<rparr>
      in if fst ev = OnSolutionComplete
         then handleStreamingComplete message' (p_data (snd ev)) a'
         else Inr a')"

fun app_run :: "message \<Rightarrow> (cbname \<times> payload) list \<Rightarrow> app \<Rightarrow> js_error + app" where
  "app_run message' [] a = Inr a"
| "app_run message' (ev # evs) a =
     (case app_deliver message' ev a of
        Inl e \<Rightarrow> Inl e
      | Inr a' \<Rightarrow> app_run message' evs a')"

definition store_after :: "message \<Rightarrow> (cbname \<times> payload) list \<Rightarrow> app \<Rightarrow> message list option" where
  "store_after message' evs a =
     (case app_run message' evs a of
        Inl e \<Rightarrow> None
      | Inr a' \<Rightarrow> Some (messages (app_tutor a')))"

text \<open>
  The cleanup the display's effect returns: it calls the stored cleanup function, that
  is \<^verbatim>\<open>reader.cancel()\<close> of the reader it holds, when one has been stored.
\<close>

datatype transport_op =
    CancelReader nat
  | OpenStream nat string string "history_entry list"

definition display_cleanup :: "nat option \<Rightarrow> transport_op list" where
  "display_cleanup streamCleanupRef' =
     (case streamCleanupRef' of None \<Rightarrow> [] | Some r \<Rightarrow> [CancelReader r])"

section \<open>\<^verbatim>\<open>ChatInterface\<close>\<close>

text \<open>
  What is modelled of \<^verbatim>\<open>ChatInterface\<close> is its handling of questions and of feedback;
  the callbacks it passes to the transport and its rendering are not. This is
  the state \<^verbatim>\<open>ChatInterface\<close> keeps when it handles questions itself, the props
  \<^verbatim>\<open>messages\<close> and \<^verbatim>\<open>sessionId\<close>, and the calls made on the transport so far: the
  \<open>n\<close>-th call of \<^verbatim>\<open>createStreamConnection\<close> opens connection \<open>n\<close>, whose cleanup function
  cancels reader \<open>n\<close>.
\<close>

record chat =
  internalMessages :: "message list"
  internalLoading :: bool
  currentStreamSession :: "string option"
  streamCleanupRef :: "nat option"
  externalMessages :: "message list option"
  chat_sessionId :: string
  transport_log :: "transport_op list"

fun is_open :: "transport_op \<Rightarrow> bool" where
  "is_open (OpenStream n q sid h) = True"
| "is_open (CancelReader r) = False"

definition chat_messages :: "chat \<Rightarrow> message list" where
  "chat_messages s = (case externalMessages s of Some ms \<Rightarrow> ms | None \<Rightarrow> internalMessages s)"

text \<open>
  \<^verbatim>\<open>handleInternalSendMessage(question)\<close> up to its \<^verbatim>\<open>await\<close>: the messages are
  appended, the stored cleanup function is called if there is one, and
  \<^verbatim>\<open>createStreamConnection\<close> is called, which issues the request.
\<close>

definition handleInternalSendMessage :: "nat \<Rightarrow> string \<Rightarrow> chat \<Rightarrow> chat" where
  "handleInternalSendMessage now question' s =
     (let safeQuestion = js_trim question'
      in if safeQuestion = [] then s
         else
           (let conversationHistory' = buildConversationHistory (internalMessages s);
                userMessage =
                  \<lparr>msg_id = ''user_'' @ show_nat now, msg_text = safeQuestion, isUser = True,
                   timestamp = now, originalQuestion = Some safeQuestion,
                   streaming_session_id = None, solution = None, showFeedback = False,
                   isError = False, feedbackSubmitted = False, feedbackDetails = None,
                   request_type = None, conversationHistory = None,
                   onSolutionComplete = None\<rparr>;
                aiMessage =
                  \<lparr>msg_id = ''ai_'' @ show_nat now,
                   msg_text = ''I'm analyzing your math problem and will solve it step by step...'',
                   isUser = False, timestamp = now, originalQuestion = Some safeQuestion,
                   streaming_session_id = Some (chat_sessionId s), solution = None,
                   showFeedback = True, isError = False, feedbackSubmitted = False,
                   feedbackDetails = None, request_type = None,
                   conversationHistory = Some conversationHistory',
                   onSolutionComplete = Some (''ai_'' @ show_nat now)\<rparr>
            in s\<lparr>internalMessages := (internalMessages s @ [userMessage]) @ [aiMessage],
                 internalLoading := True,
                 currentStreamSession := Some (chat_sessionId s),
                 transport_log :=
                   transport_log s
                     @ (case streamCleanupRef s of None \<Rightarrow> [] | Some r \<Rightarrow> [CancelReader r])
                     @ [OpenStream (length (filter is_open (transport_log s))) safeQuestion
                          (chat_sessionId s) conversationHistory']\<rparr>))"

text \<open>
  The continuation after the \<^verbatim>\<open>await\<close>: connection \<open>n\<close> is established and its cleanup
  function is stored, or the connection fails, which is reported through
  \<^verbatim>\<open>onConnectionError\<close> and then caught by \<^verbatim>\<open>handleInternalSendMessage\<close>.
\<close>

definition stream_connected :: "nat \<Rightarrow> chat \<Rightarrow> chat" where
  "stream_connected n s = s\<lparr>streamCleanupRef := Some n\<rparr>"

definition stream_failed :: "nat \<Rightarrow> string \<Rightarrow> chat \<Rightarrow> chat" where
  "stream_failed now err s =
     s\<lparr>internalMessages :=
         internalMessages s @
           [\<lparr>msg_id = ''error_'' @ show_nat now,
             msg_text = ''I apologize, but I encountered an error while trying to solve your problem: ''
                          @ err @ ''. Please try again or rephrase your question.'',
             isUser = False, timestamp = now, originalQuestion = None,
             streaming_session_id = None, solution = None, showFeedback = False,
             isError = True, feedbackSubmitted = False, feedbackDetails = None,
             request_type = None, conversationHistory = None, onSolutionComplete = None\<rparr>],
       internalLoading := False,
       currentStreamSession := None\<rparr>"

datatype chat_event = Submit nat string | Connected nat | ConnectFailed nat string

fun chat_step :: "chat \<Rightarrow> chat_event \<Rightarrow> chat" where
  "chat_step s (Submit now q) = handleInternalSendMessage now q s"
| "chat_step s (Connected n) = stream_connected n s"
| "chat_step s (ConnectFailed now err) = stream_failed now err s"

definition chat_init :: "string \<Rightarrow> chat" where
  "chat_init sid =
     \<lparr>internalMessages = [], internalLoading = False, currentStreamSession = None,
      streamCleanupRef = None, externalMessages = None, chat_sessionId = sid,
      transport_log = []\<rparr>"

text \<open>
  \<^verbatim>\<open>handleSubmit\<close> of \<^verbatim>\<open>ChatInput\<close>: the argument it passes to \<^verbatim>\<open>onSendMessage\<close>, or
  \<open>None\<close> when it does not call it.
\<close>

definition handleSubmit :: "string \<Rightarrow> bool \<Rightarrow> bool \<Rightarrow> string option" where
  "handleSubmit input loading' streamingActive =
     (if js_trim input \<noteq> [] \<and> \<not> loading' \<and> \<not> streamingActive then Some (js_trim input)
      else None)"

text \<open>
  \<^verbatim>\<open>handleInternalFeedback(messageId, feedbackData)\<close>. \<open>submitFeedback\<close> stands for the
  awaited request: it resolves with the response body or rejects with a message. When
  no message has the id, reading \<^verbatim>\<open>message.originalQuestion\<close> throws inside the
  \<^verbatim>\<open>try\<close> block and nothing is sent.
\<close>

record feedback_data =
  user_rating :: int
  user_comment :: "string option"

record feedback_request =
  fr_user_rating :: int
  fr_user_comment :: "string option"
  fr_question :: "string option"
  fr_original_solution :: "solution option"
  fr_session_id :: string

definition handleInternalFeedback ::
  "string \<Rightarrow> feedback_data \<Rightarrow> (feedback_request \<Rightarrow> string + json) \<Rightarrow> chat \<Rightarrow> chat" where
  "handleInternalFeedback messageId feedbackData submitFeedback s =
     (case find (\<lambda>m. msg_id m = messageId) (chat_messages s) of
        None \<Rightarrow> s
      | Some message' \<Rightarrow>
          (case submitFeedback
                  \<lparr>fr_user_rating = user_rating feedbackData,
                   fr_user_comment = user_comment feedbackData,
                   fr_question = originalQuestion message',
                   fr_original_solution = solution message',
                   fr_session_id = chat_sessionId s\<rparr> of
             Inl err \<Rightarrow> s
           | Inr response \<Rightarrow>
               s\<lparr>internalMessages :=
                   map (\<lambda>msg. if msg_id msg = messageId
                              then msg\<lparr>feedbackSubmitted := True,
                                      feedbackDetails :=
                                        Some \<lparr>rating = user_rating feedbackData,
                                              improvement_triggered = (user_rating feedbackData \<le> 2)\<rparr>\<rparr>
                              else msg) (internalMessages s)\<rparr>))"


section \<open>Notions the statements below use\<close>

text \<open>A callback bag that defines every callback.\<close>

definition all_callbacks :: callbacks where
  "all_callbacks cb = True"

text \<open>The tutor before the first question.\<close>

definition tutor_init :: "string \<Rightarrow> tutor" where
  "tutor_init sid = \<lparr>messages = [], loading = False, isProcessing = False, sessionId = sid\<rparr>"

text \<open>
  The fields of a message, which of them a patch names, and what it means for a field
  to have the same value in two messages.
\<close>

datatype field =
    F_id | F_text | F_isUser | F_timestamp | F_originalQuestion | F_streaming_session_id
  | F_solution | F_showFeedback | F_isError | F_feedbackSubmitted | F_feedbackDetails
  | F_request_type | F_conversationHistory | F_onSolutionComplete

fun names :: "patch \<Rightarrow> field \<Rightarrow> bool" where
  "names p F_id = (set_msg_id p \<noteq> None)"
| "names p F_text = (set_msg_text p \<noteq> None)"
| "names p F_isUser = (set_isUser p \<noteq> None)"
| "names p F_timestamp = (set_timestamp p \<noteq> None)"
| "names p F_originalQuestion = (set_originalQuestion p \<noteq> None)"
| "names p F_streaming_session_id = (set_streaming_session_id p \<noteq> None)"
| "names p F_solution = (set_solution p \<noteq> None)"
| "names p F_showFeedback = (set_showFeedback p \<noteq> None)"
| "names p F_isError = (set_isError p \<noteq> None)"
| "names p F_feedbackSubmitted = (set_feedbackSubmitted p \<noteq> None)"
| "names p F_feedbackDetails = (set_feedbackDetails p \<noteq> None)"
| "names p F_request_type = (set_request_type p \<noteq> None)"
| "names p F_conversationHistory = (set_conversationHistory p \<noteq> None)"
| "names p F_onSolutionComplete = (set_onSolutionComplete p \<noteq> None)"

fun same_field :: "field \<Rightarrow> message \<Rightarrow> message \<Rightarrow> bool" where
  "same_field F_id m m' = (msg_id m' = msg_id m)"
| "same_field F_text m m' = (msg_text m' = msg_text m)"
| "same_field F_isUser m m' = (isUser m' = isUser m)"
| "same_field F_timestamp m m' = (timestamp m' = timestamp m)"
| "same_field F_originalQuestion m m' = (originalQuestion m' = originalQuestion m)"
| "same_field F_streaming_session_id m m' = (streaming_session_id m' = streaming_session_id m)"
| "same_field F_solution m m' = (solution m' = solution m)"
| "same_field F_showFeedback m m' = (showFeedback m' = showFeedback m)"
| "same_field F_isError m m' = (isError m' = isError m)"
| "same_field F_feedbackSubmitted m m' = (feedbackSubmitted m' = feedbackSubmitted m)"
| "same_field F_feedbackDetails m m' = (feedbackDetails m' = feedbackDetails m)"
| "same_field F_request_type m m' = (request_type m' = request_type m)"
| "same_field F_conversationHistory m m' = (conversationHistory m' = conversationHistory m)"
| "same_field F_onSolutionComplete m m' = (onSolutionComplete m' = onSolutionComplete m)"

text \<open>
  The progress values of one question, as the specification lists them: 10, 25, 40, the
  value of each step update, the value of each of the \<open>n\<close> steps, the value of the
  completion event, and 100.
\<close>

definition question_progress :: "payload list \<Rightarrow> nat \<Rightarrow> payload \<Rightarrow> rat list" where
  "question_progress updates n completion' =
     [10, 25, 40]
       @ map (\<lambda>u. or_num (p_progress u) 50) updates
       @ map (\<lambda>k. 50 + (of_nat k / of_nat n) * 30) [1..<Suc n]
       @ [or_num (p_progress completion') 95, 100]"

text \<open>
  The specification's example: the question \<^verbatim>\<open>Solve 2x+5=11\<close> asked in session \<^verbatim>\<open>s1\<close>
  at clock reading 1, its solution, and the tutor once the solution has been stored.
\<close>

definition example_solution :: solution where
  "example_solution =
     \<lparr>steps = [\<lparr>step_text = Some ''x=3'', step_type = None\<rparr>],
      final_answer = Some ''x=3'', confidence = Some (23 / 25),
      route = Some ''knowledge_base'', conversational_response = None, question = None\<rparr>"

definition example_tutor :: tutor where
  "example_tutor = sendMessage 1 ''Solve 2x+5=11'' (tutor_init ''s1'')"

definition example_solved :: tutor where
  "example_solved =
     example_tutor
       \<lparr>messages := updateById ''ai_1'' (solution_patch example_solution) (messages example_tutor),
        loading := False, isProcessing := False\<rparr>"

text \<open>A chat interface that holds the example's messages itself.\<close>

definition example_chat :: chat where
  "example_chat = (chat_init ''s1'')\<lparr>internalMessages := messages example_solved\<rparr>"

text \<open>
  The example's assistant message, the application while its display is streaming, an
  \<^verbatim>\<open>error\<close> envelope and the \<^verbatim>\<open>solution_complete\<close> envelope.
\<close>

definition example_owner :: message where
  "example_owner = messages example_tutor ! 1"

definition example_app :: app where
  "example_app =
     \<lparr>app_display = display_start display_init,
      app_bubble = \<lparr>showStreamingSolution = True, streamingSessionId = Some ''s1''\<rparr>,
      app_tutor = example_tutor\<rparr>"

definition example_error :: "cbname \<times> payload" where
  "example_error = (OnError, no_payload\<lparr>p_message := Some ''boom''\<rparr>)"

definition example_complete :: "cbname \<times> payload" where
  "example_complete = (OnSolutionComplete, no_payload\<lparr>p_data := Some example_solution\<rparr>)"

text \<open>The readers cancelled and the connections opened in a transport log, in order.\<close>

fun cancelled_readers :: "transport_op list \<Rightarrow> nat list" where
  "cancelled_readers [] = []"
| "cancelled_readers (CancelReader r # ops) = r # cancelled_readers ops"
| "cancelled_readers (OpenStream n q sid h # ops) = cancelled_readers ops"

fun opened_connections :: "transport_op list \<Rightarrow> nat list" where
  "opened_connections [] = []"
| "opened_connections (CancelReader r # ops) = opened_connections ops"
| "opened_connections (OpenStream n q sid h # ops) = n # opened_connections ops"

text \<open>A feedback endpoint that accepts every request and answers that nothing was triggered.\<close>

definition accepting_endpoint :: "feedback_request \<Rightarrow> string + json" where
  "accepting_endpoint req = Inr (JObj [(''improvement_triggered'', JBool False)])"


section \<open>The read loop and chunk boundaries\<close>

lemma split_nl_ne: "split_nl s \<noteq> []"
  by (induction s) (auto split: list.splits)

lemma split_nl_append: "split_nl (a @ CHR 0x0A # b) = split_nl a @ split_nl b"
  by (induction a) (simp_all add: split_nl_ne split: list.splits)

lemma process_lines_append:
  "process_lines p cbs (xs @ ys) = process_lines p cbs xs @ process_lines p cbs ys"
  by (induction xs) auto

lemma handle_line_empty: "handle_line p cbs [] = []"
  by (simp add: handle_line_def)

lemma process_chunk_aligned:
  assumes "c = [] \<or> last c = CHR 0x0A"
  shows "process_lines p cbs (split_nl (c @ rest)) =
     process_lines p cbs (split_nl c) @ process_lines p cbs (split_nl rest)"
proof (cases "c = []")
  case True
  then show ?thesis by (simp add: handle_line_empty)
next
  case False
  with assms have "c = butlast c @ [CHR 0x0A]"
    by (metis append_butlast_last_id)
  then obtain a where c: "c = a @ [CHR 0x0A]" ..
  have "split_nl (a @ [CHR 0x0A]) = split_nl a @ [[]]"
    using split_nl_append [of a "[]"] by simp
  then show ?thesis
    by (simp add: c split_nl_append process_lines_append handle_line_empty)
qed

lemma per_chunk:
  "processStream p cbs (map Value chunks @ [Done]) =
     concat (map (\<lambda>c. process_lines p cbs (split_nl c)) chunks)"
  by (induction chunks) auto

text \<open>
  Claim C1, as the code has it. The read loop keeps no buffer from one read to the next:
  every chunk is split at newlines and handled on its own. So when every chunk ends at
  a line boundary (no event line is split across reads), the stream is handled exactly
  as its whole text would be, line by line, nothing dropped and nothing duplicated.
\<close>

theorem C1_line_aligned_chunks:
  assumes "\<forall>c \<in> set chunks. c = [] \<or> last c = CHR 0x0A"
  shows "processStream parse cbs (map Value chunks @ [Done]) =
           concat (map (\<lambda>c. process_lines parse cbs (split_nl c)) chunks)
         \<and> processStream parse cbs (map Value chunks @ [Done]) =
           process_lines parse cbs (split_nl (concat chunks))"
proof
  show "processStream parse cbs (map Value chunks @ [Done]) =
           concat (map (\<lambda>c. process_lines parse cbs (split_nl c)) chunks)"
    by (rule per_chunk)
  from assms show "processStream parse cbs (map Value chunks @ [Done]) =
           process_lines parse cbs (split_nl (concat chunks))"
  proof (induction chunks)
    case Nil
    then show ?case by (simp add: handle_line_empty)
  next
    case (Cons c cs)
    then show ?case by (simp add: process_chunk_aligned)
  qed
qed

text \<open>
  Two whole event lines, one per chunk: both envelopes are dispatched, in order.
\<close>

theorem C1_line_aligned_chunks_witness:
  \<open>processStream JSON_parse all_callbacks
      (map Value [''data: {"a":1}\<newline>'', ''data: {"type":"connected"}\<newline>''] @ [Done])
    = [Invoke OnUnknownEvent (JObj [(''a'', JNum 1)]),
       Invoke OnConnect (JObj [(''type'', JStr ''connected'')])]\<close>
proof -
  have aligned: \<open>\<forall>c \<in> set [''data: {"a":1}\<newline>'', ''data: {"type":"connected"}\<newline>''].
                   c = [] \<or> last c = CHR 0x0A\<close>
    by simp
  have ev: \<open>process_lines JSON_parse all_callbacks
          (split_nl (concat [''data: {"a":1}\<newline>'', ''data: {"type":"connected"}\<newline>'']))
        = [Invoke OnUnknownEvent (JObj [(''a'', JNum 1)]),
           Invoke OnConnect (JObj [(''type'', JStr ''connected'')])]\<close>
    by code_simp
  show ?thesis
    by (rule trans [OF conjunct2 [OF C1_line_aligned_chunks [OF aligned]] ev])
qed

text \<open>
  Claim C1 as stated fails. The line \<^verbatim>\<open>data: {"a":1}\<close> delivered in two reads, cut
  before the closing brace, yields no envelope: the first piece does not parse and is
  logged, the second does not start with the prefix. Delivered whole it yields one.
\<close>

theorem C1_split_line_counterexample:
  \<open>processStream JSON_parse all_callbacks [Value ''data: {"a":1'', Value ''}\<newline>'', Done]
     = [LogParseError]
   \<and> processStream JSON_parse all_callbacks [Value ''data: {"a":1}\<newline>'', Done]
     = [Invoke OnUnknownEvent (JObj [(''a'', JNum 1)])]\<close>
  by code_simp


section \<open>Malformed lines, dispatch and cancellation\<close>

lemma split_nl_line: "CHR 0x0A \<notin> set l \<Longrightarrow> split_nl (l @ CHR 0x0A # r) = l # split_nl r"
  by (induction l) (auto simp: split_nl_ne split: list.splits)

lemma split_nl_event_text:
  "\<forall>l \<in> set ls. CHR 0x0A \<notin> set l \<Longrightarrow> split_nl (event_text ls @ rest) = ls @ split_nl rest"
proof (induction ls)
  case Nil
  then show ?case by (simp add: event_text_def)
next
  case (Cons l ls)
  then show ?case
    by (simp add: event_text_def split_nl_line)
qed

lemma malformed_line_logged:
  "take 6 bad = ''data: '' \<Longrightarrow> parse (drop 6 bad) = None \<Longrightarrow> handle_line parse cbs bad = [LogParseError]"
  by (simp add: handle_line_def)

text \<open>
  Claim C5. In a chunk of complete event lines, a line with the prefix whose payload does
  not parse is logged and skipped, and nothing else changes: the lines before it and the
  lines after it are handled as they would be without it, and the read loop goes on with
  the rest of the stream.
\<close>

theorem C5_malformed_line_skipped:
  assumes nl: "\<forall>l \<in> set (pre @ bad # post). CHR 0x0A \<notin> set l"
    and prefix: "take 6 bad = ''data: ''"
    and malformed: "parse (drop 6 bad) = None"
  shows "processStream parse cbs (Value (event_text (pre @ bad # post)) # rest) =
           process_lines parse cbs pre @ [LogParseError] @ process_lines parse cbs post
             @ processStream parse cbs rest"
proof -
  from nl have "split_nl (event_text (pre @ bad # post) @ []) = (pre @ bad # post) @ split_nl []"
    by (rule split_nl_event_text)
  then have "split_nl (event_text (pre @ bad # post)) = pre @ bad # post @ [[]]"
    by simp
  then show ?thesis
    using prefix malformed
    by (simp add: process_lines_append malformed_line_logged handle_line_empty)
qed

lemma switch_type_table: "switch_type (js_get data ''type'') = spec_target data"
proof (cases "js_get data ''type''")
  case None
  then show ?thesis by (simp add: spec_target_def)
next
  case (Some v)
  then show ?thesis
    by (cases v) (simp_all add: spec_target_def event_table_def)
qed

text \<open>
  The read loop never hands \<^verbatim>\<open>null\<close> to the dispatcher: reading its type for the console
  throws first, and the line is logged and skipped like a malformed one.
\<close>

lemma null_never_dispatched:
  "parse (drop 6 line) = Some JNull \<Longrightarrow> take 6 line = ''data: '' \<Longrightarrow>
   handle_line parse cbs line = [LogParseError]"
  by (simp add: handle_line_def)

text \<open>
  Claim C6. For an envelope (a parsed value other than \<^verbatim>\<open>null\<close>) the dispatcher invokes
  the callback the specification's table gives for the envelope's type, the catch-all for
  any other type, with the envelope itself as the argument; when that callback is not
  defined nothing is invoked and no error is raised. The table has nine entries, with
  distinct types and distinct callbacks, none of them the catch-all.
\<close>

theorem C6_dispatch:
  assumes "data \<noteq> JNull"
  shows "handleStreamEvent data cbs =
           Inr (if cbs (spec_target data) then [Invoke (spec_target data) data] else [])
         \<and> length event_table = 9
         \<and> distinct (map fst event_table)
         \<and> distinct (map snd event_table)
         \<and> OnUnknownEvent \<notin> set (map snd event_table)"
proof -
  from assms have "handleStreamEvent data cbs =
           Inr (if cbs (spec_target data) then [Invoke (spec_target data) data] else [])"
    by (simp add: handleStreamEvent_def switch_type_table Let_def)
  moreover have "length event_table = 9" "distinct (map fst event_table)"
    "distinct (map snd event_table)" "OnUnknownEvent \<notin> set (map snd event_table)"
    by (simp_all add: event_table_def)
  ultimately show ?thesis by blast
qed

text \<open>
  The reader and the cleanup function. The answers to the reads are those of the events
  taken piece by piece; once the stream is closed or errored nothing changes it any
  more, and a closed stream answers every read with \<^verbatim>\<open>done\<close>, at the first of which the
  loop leaves.
\<close>

lemma reader_reads_append:
  "reader_reads s (xs @ ys) = reader_reads s xs @ reader_reads (stream_after s xs) ys"
proof (induction xs arbitrary: s)
  case Nil
  then show ?case by simp
next
  case (Cons e xs)
  then show ?case
    by (cases e) (simp_all split: prod.splits option.splits)
qed

lemma settled_step: "state s \<noteq> Readable \<Longrightarrow> stream_step s e = s"
  by (cases e; cases "state s")
     (simp_all add: controller_enqueue_def controller_close_def controller_error_def
        cleanup_def reader_cancel_def reader_read_def)

lemma settled_after: "state s \<noteq> Readable \<Longrightarrow> stream_after s evs = s"
  by (induction evs) (simp_all add: settled_step)

lemma settled_reads:
  "state s \<noteq> Readable \<Longrightarrow> reader_reads s evs = reader_reads s (filter (\<lambda>e. e = Read) evs)"
proof (induction evs)
  case Nil
  then show ?case by simp
next
  case (Cons e evs)
  then show ?case
    by (cases e; cases "state s")
       (simp_all add: controller_enqueue_def controller_close_def controller_error_def
          cleanup_def reader_cancel_def reader_read_def)
qed

lemma closed_reads: "state s = Closed \<Longrightarrow> set (reader_reads s evs) \<subseteq> {Done}"
proof (induction evs)
  case Nil
  then show ?case by simp
next
  case (Cons e evs)
  then show ?case
    by (cases e)
       (simp_all add: controller_enqueue_def controller_close_def controller_error_def
          cleanup_def reader_cancel_def reader_read_def)
qed

lemma cleanup_settles: "state (snd (cleanup s)) \<noteq> Readable"
  by (cases "state s") (simp_all add: cleanup_def reader_cancel_def)

lemma cleanup_closes: "state s = Readable \<or> state s = Closed \<Longrightarrow> state (snd (cleanup s)) = Closed"
  by (auto simp: cleanup_def reader_cancel_def)

lemma loop_leaves_at_done:
  "set ds \<subseteq> {Done} \<Longrightarrow> processStream p cbs (rs @ ds) = processStream p cbs rs"
proof (induction rs)
  case Nil
  then show ?case by (cases ds) auto
next
  case (Cons r rs)
  then show ?case by (cases r) simp_all
qed

lemma values_handled:
  "processStream p cbs (map Value chunks @ rs) =
     concat (map (\<lambda>c. process_lines p cbs (split_nl c)) chunks) @ processStream p cbs rs"
  by (induction chunks) simp_all

lemma enqueued:
  "reader_reads \<lparr>state = Readable, queue = q, closeRequested = False\<rparr> (map Enqueue chunks @ evs)
     = reader_reads \<lparr>state = Readable, queue = q @ chunks, closeRequested = False\<rparr> evs"
  by (induction chunks arbitrary: q) (simp_all add: controller_enqueue_def)

lemma queued_reads:
  "reader_reads \<lparr>state = Readable, queue = chunks @ unread, closeRequested = False\<rparr>
       (replicate (length chunks) Read @ evs)
     = map Value chunks
       @ reader_reads \<lparr>state = Readable, queue = unread, closeRequested = False\<rparr> evs"
  by (induction chunks) (simp_all add: reader_read_def)

text \<open>
  Claim C8. The cleanup function that \<^verbatim>\<open>createStreamConnection\<close> returns calls
  \<^verbatim>\<open>reader.cancel()\<close>, and the loop leaves at the first \<^verbatim>\<open>done\<close>. Called before any
  read of the loop has been answered, whatever chunks have arrived by then, it leaves
  no callback to be invoked, ever. Called in mid-stream, the chunks read before it are
  handled and the chunks still queued are dropped; on a stream that has not failed the
  transport then does nothing more, whatever arrives and however often the loop reads;
  and in every case what arrives after the call makes no difference: of the later
  events only the loop's own reads are left. A second call, at any later moment,
  changes nothing and settles as the first one does. On a stream that has ended the
  call changes nothing and its promise is fulfilled; on a stream that has failed it
  changes nothing either, the transport goes on as without the call, and the promise
  is rejected with the stored error, which nobody handles.
\<close>

theorem C8_cancel:
  "transport parse cbs (map Enqueue chunks @ Cancel # later) = []
   \<and> transport parse cbs
         (map Enqueue (chunks @ unread) @ replicate (length chunks) Read @ Cancel # later)
       = concat (map (\<lambda>c. process_lines parse cbs (split_nl c)) chunks)
   \<and> (state (stream_after fresh_stream evs) = Readable
          \<or> state (stream_after fresh_stream evs) = Closed \<longrightarrow>
        transport parse cbs (evs @ Cancel # later) = transport parse cbs evs)
   \<and> transport parse cbs (evs @ Cancel # later)
       = transport parse cbs (evs @ Cancel # filter (\<lambda>e. e = Read) later)
   \<and> transport parse cbs (evs @ Cancel # mid @ Cancel # later)
       = transport parse cbs (evs @ Cancel # mid @ later)
   \<and> cleanup (snd (cleanup s)) = cleanup s
   \<and> (state s = Closed \<longrightarrow> cleanup s = (Fulfilled, s))
   \<and> (state s = Errored msg \<longrightarrow> cleanup s = (RejectedWith msg, s))
   \<and> (state (stream_after fresh_stream evs) \<noteq> Readable \<longrightarrow>
        transport parse cbs (evs @ Cancel # later) = transport parse cbs (evs @ later))
   \<and> processStream parse cbs (map Value chunks @ Done # rs)
       = concat (map (\<lambda>c. process_lines parse cbs (split_nl c)) chunks)"
proof -
  have after_cancel: "processStream parse cbs (rs' @ reader_reads (snd (cleanup s')) evs') =
      processStream parse cbs rs'"
    if "state s' = Readable \<or> state s' = Closed" for rs' s' evs'
    by (rule loop_leaves_at_done) (rule closed_reads, rule cleanup_closes, rule that)
  have before: "transport parse cbs (map Enqueue chunks @ Cancel # later) = []"
    using enqueued [of "[]" chunks "Cancel # later"]
      after_cancel [of "\<lparr>state = Readable, queue = chunks, closeRequested = False\<rparr>" "[]" later]
    by (simp add: transport_def fresh_stream_def)
  have unread: "transport parse cbs
         (map Enqueue (chunks @ unread) @ replicate (length chunks) Read @ Cancel # later)
       = concat (map (\<lambda>c. process_lines parse cbs (split_nl c)) chunks)"
    using enqueued [of "[]" "chunks @ unread" "replicate (length chunks) Read @ Cancel # later"]
      queued_reads [of chunks unread "Cancel # later"]
      after_cancel [of "\<lparr>state = Readable, queue = unread, closeRequested = False\<rparr>"
        "map Value chunks" later]
      values_handled [of parse cbs chunks "[]"]
    by (simp add: transport_def fresh_stream_def)
  have live: "transport parse cbs (evs @ Cancel # later) = transport parse cbs evs"
    if "state (stream_after fresh_stream evs) = Readable
        \<or> state (stream_after fresh_stream evs) = Closed"
    using after_cancel [OF that] by (simp add: transport_def reader_reads_append)
  have further: "transport parse cbs (evs @ Cancel # later)
       = transport parse cbs (evs @ Cancel # filter (\<lambda>e. e = Read) later)"
    using settled_reads [OF cleanup_settles, of "stream_after fresh_stream evs" later]
    by (simp add: transport_def reader_reads_append)
  have again: "transport parse cbs (evs @ Cancel # mid @ Cancel # later)
       = transport parse cbs (evs @ Cancel # mid @ later)"
  proof -
    have "state (stream_after (snd (cleanup (stream_after fresh_stream evs))) mid) \<noteq> Readable"
      by (simp add: settled_after [OF cleanup_settles] cleanup_settles)
    then have "snd (cleanup (stream_after (snd (cleanup (stream_after fresh_stream evs))) mid))
                = stream_after (snd (cleanup (stream_after fresh_stream evs))) mid"
      using settled_step [of _ Cancel] by simp
    then show ?thesis
      by (simp add: transport_def reader_reads_append)
  qed
  have twice: "cleanup (snd (cleanup s)) = cleanup s"
    by (cases "state s") (simp_all add: cleanup_def reader_cancel_def)
  have ended: "state s = Closed \<longrightarrow> cleanup s = (Fulfilled, s)"
    by (simp add: cleanup_def reader_cancel_def)
  have failed: "state s = Errored msg \<longrightarrow> cleanup s = (RejectedWith msg, s)"
    by (simp add: cleanup_def reader_cancel_def)
  have over: "transport parse cbs (evs @ Cancel # later) = transport parse cbs (evs @ later)"
    if "state (stream_after fresh_stream evs) \<noteq> Readable"
    using settled_step [OF that, of Cancel] by (simp add: transport_def reader_reads_append)
  have leaves: "processStream parse cbs (map Value chunks @ Done # rs)
       = concat (map (\<lambda>c. process_lines parse cbs (split_nl c)) chunks)"
    by (simp add: values_handled)
  from before unread live further again twice ended failed over leaves
  show ?thesis by blast
qed

text \<open>
  Two chunks have arrived and one has been read when the cleanup function is called:
  one callback. A chunk that arrives after the call is never handled. After the end
  of the stream the call adds nothing to what the transport has done. On a closed
  stream the call is fulfilled, on a failed one rejected, and a failure the loop has
  not yet seen is reported through \<^verbatim>\<open>onError\<close> as it is without the call.
\<close>

theorem C8_cancel_witness:
  \<open>transport JSON_parse all_callbacks
      (map Enqueue ([''data: {"type":"connected"}\<newline>''] @ [''data: {"type":"routing"}\<newline>''])
       @ replicate (length [''data: {"type":"connected"}\<newline>'']) Read @ Cancel # [Read])
     = [Invoke OnConnect (JObj [(''type'', JStr ''connected'')])]
   \<and> transport JSON_parse all_callbacks
      ([Enqueue ''data: {"type":"connected"}\<newline>'', Read]
       @ Cancel # [Enqueue ''data: {"type":"routing"}\<newline>'', Read, Close, Read])
     = [Invoke OnConnect (JObj [(''type'', JStr ''connected'')])]
   \<and> transport JSON_parse all_callbacks
      ([Enqueue ''data: {"type":"connected"}\<newline>'', Close, Read, Read] @ Cancel # [Read])
     = [Invoke OnConnect (JObj [(''type'', JStr ''connected'')])]
   \<and> cleanup \<lparr>state = Closed, queue = [], closeRequested = True\<rparr>
     = (Fulfilled, \<lparr>state = Closed, queue = [], closeRequested = True\<rparr>)
   \<and> cleanup \<lparr>state = Errored ''network error'', queue = [], closeRequested = False\<rparr>
     = (RejectedWith ''network error'',
        \<lparr>state = Errored ''network error'', queue = [], closeRequested = False\<rparr>)
   \<and> transport JSON_parse all_callbacks
      ([Enqueue ''data: {"type":"connected"}\<newline>'', Read, Fail ''network error''] @ Cancel # [Read])
     = [Invoke OnConnect (JObj [(''type'', JStr ''connected'')]),
        LogStreamError,
        Invoke OnError (JObj [(''message'', JStr ''network error'')])]\<close>
proof -
  note queued = C8_cancel [where parse = JSON_parse and cbs = all_callbacks
      and chunks = \<open>[''data: {"type":"connected"}\<newline>'']\<close>
      and unread = \<open>[''data: {"type":"routing"}\<newline>'']\<close>
      and later = \<open>[Read]\<close>]
  note live = C8_cancel [where parse = JSON_parse and cbs = all_callbacks
      and evs = \<open>[Enqueue ''data: {"type":"connected"}\<newline>'', Read]\<close>
      and later = \<open>[Enqueue ''data: {"type":"routing"}\<newline>'', Read, Close, Read]\<close>]
  note closed = C8_cancel [where parse = JSON_parse and cbs = all_callbacks
      and evs = \<open>[Enqueue ''data: {"type":"connected"}\<newline>'', Close, Read, Read]\<close>
      and later = \<open>[Read]\<close>]
  note ended = C8_cancel [where s = \<open>\<lparr>state = Closed, queue = [], closeRequested = True\<rparr>\<close>]
  note failed = C8_cancel
      [where s = \<open>\<lparr>state = Errored ''network error'', queue = [], closeRequested = False\<rparr>\<close>
         and msg = \<open>''network error''\<close>
         and parse = JSON_parse and cbs = all_callbacks
         and evs = \<open>[Enqueue ''data: {"type":"connected"}\<newline>'', Read, Fail ''network error'']\<close>
         and later = \<open>[Read]\<close>]
  have one: \<open>concat (map (\<lambda>c. process_lines JSON_parse all_callbacks (split_nl c))
                  [''data: {"type":"connected"}\<newline>''])
             = [Invoke OnConnect (JObj [(''type'', JStr ''connected'')])]\<close>
    by code_simp
  have readable: \<open>state (stream_after fresh_stream [Enqueue ''data: {"type":"connected"}\<newline>'', Read]) = Readable
      \<or> state (stream_after fresh_stream [Enqueue ''data: {"type":"connected"}\<newline>'', Read]) = Closed\<close>
    by code_simp
  have so_far: \<open>transport JSON_parse all_callbacks [Enqueue ''data: {"type":"connected"}\<newline>'', Read]
             = [Invoke OnConnect (JObj [(''type'', JStr ''connected'')])]\<close>
    by code_simp
  have at_end: \<open>state (stream_after fresh_stream
                    [Enqueue ''data: {"type":"connected"}\<newline>'', Close, Read, Read])
                  \<noteq> Readable\<close>
    by code_simp
  have all_read: \<open>transport JSON_parse all_callbacks
        ([Enqueue ''data: {"type":"connected"}\<newline>'', Close, Read, Read] @ [Read])
     = [Invoke OnConnect (JObj [(''type'', JStr ''connected'')])]\<close>
    by code_simp
  have is_closed: \<open>state \<lparr>state = Closed, queue = [], closeRequested = True\<rparr> = Closed\<close>
    by simp
  have is_errored: \<open>state \<lparr>state = Errored ''network error'', queue = [], closeRequested = False\<rparr>
                     = Errored ''network error''\<close>
    by simp
  have errored: \<open>state (stream_after fresh_stream
                    [Enqueue ''data: {"type":"connected"}\<newline>'', Read, Fail ''network error''])
                  \<noteq> Readable\<close>
    by code_simp
  have reported: \<open>transport JSON_parse all_callbacks
        ([Enqueue ''data: {"type":"connected"}\<newline>'', Read, Fail ''network error''] @ [Read])
     = [Invoke OnConnect (JObj [(''type'', JStr ''connected'')]),
        LogStreamError,
        Invoke OnError (JObj [(''message'', JStr ''network error'')])]\<close>
    by code_simp
  show ?thesis
  proof (intro conjI)
    show \<open>transport JSON_parse all_callbacks
      (map Enqueue ([''data: {"type":"connected"}\<newline>''] @ [''data: {"type":"routing"}\<newline>''])
       @ replicate (length [''data: {"type":"connected"}\<newline>'']) Read @ Cancel # [Read])
     = [Invoke OnConnect (JObj [(''type'', JStr ''connected'')])]\<close>
      by (rule trans [OF queued [THEN conjunct2, THEN conjunct1] one])
    show \<open>transport JSON_parse all_callbacks
      ([Enqueue ''data: {"type":"connected"}\<newline>'', Read]
       @ Cancel # [Enqueue ''data: {"type":"routing"}\<newline>'', Read, Close, Read])
     = [Invoke OnConnect (JObj [(''type'', JStr ''connected'')])]\<close>
      by (rule trans [OF live [THEN conjunct2, THEN conjunct2, THEN conjunct1, THEN mp, OF readable] so_far])
    show \<open>transport JSON_parse all_callbacks
      ([Enqueue ''data: {"type":"connected"}\<newline>'', Close, Read, Read] @ Cancel # [Read])
     = [Invoke OnConnect (JObj [(''type'', JStr ''connected'')])]\<close>
      by (rule trans [OF closed [THEN conjunct2, THEN conjunct2, THEN conjunct2, THEN conjunct2,
            THEN conjunct2, THEN conjunct2, THEN conjunct2, THEN conjunct2, THEN conjunct1,
            THEN mp, OF at_end] all_read])
    show \<open>cleanup \<lparr>state = Closed, queue = [], closeRequested = True\<rparr>
     = (Fulfilled, \<lparr>state = Closed, queue = [], closeRequested = True\<rparr>)\<close>
      by (rule ended [THEN conjunct2, THEN conjunct2, THEN conjunct2, THEN conjunct2, THEN conjunct2,
            THEN conjunct2, THEN conjunct1, THEN mp, OF is_closed])
    show \<open>cleanup \<lparr>state = Errored ''network error'', queue = [], closeRequested = False\<rparr>
     = (RejectedWith ''network error'',
        \<lparr>state = Errored ''network error'', queue = [], closeRequested = False\<rparr>)\<close>
      by (rule failed [THEN conjunct2, THEN conjunct2, THEN conjunct2, THEN conjunct2, THEN conjunct2,
            THEN conjunct2, THEN conjunct2, THEN conjunct1, THEN mp, OF is_errored])
    show \<open>transport JSON_parse all_callbacks
      ([Enqueue ''data: {"type":"connected"}\<newline>'', Read, Fail ''network error''] @ Cancel # [Read])
     = [Invoke OnConnect (JObj [(''type'', JStr ''connected'')]),
        LogStreamError,
        Invoke OnError (JObj [(''message'', JStr ''network error'')])]\<close>
      by (rule trans [OF failed [THEN conjunct2, THEN conjunct2, THEN conjunct2, THEN conjunct2,
            THEN conjunct2, THEN conjunct2, THEN conjunct2, THEN conjunct2, THEN conjunct1,
            THEN mp, OF errored] reported])
  qed
qed

text \<open>
  One malformed line between two valid ones: both valid envelopes are dispatched.
\<close>

theorem C5_malformed_line_skipped_witness:
  \<open>processStream JSON_parse all_callbacks
      (Value (event_text ([''data: {"type":"connected"}''] @ ''data: {oops'' # [''data: {"type":"routing"}''])) # [Done])
    = [Invoke OnConnect (JObj [(''type'', JStr ''connected'')]),
       LogParseError,
       Invoke OnRouting (JObj [(''type'', JStr ''routing'')])]\<close>
proof -
  have nl: \<open>\<forall>l \<in> set ([''data: {"type":"connected"}''] @ ''data: {oops'' # [''data: {"type":"routing"}'']).
              CHR 0x0A \<notin> set l\<close>
    by simp
  have prefix: \<open>take 6 ''data: {oops'' = ''data: ''\<close>
    by simp
  have malformed: \<open>JSON_parse (drop 6 ''data: {oops'') = None\<close>
    by code_simp
  have ev: \<open>process_lines JSON_parse all_callbacks [''data: {"type":"connected"}''] @ [LogParseError]
               @ process_lines JSON_parse all_callbacks [''data: {"type":"routing"}'']
               @ processStream JSON_parse all_callbacks [Done]
             = [Invoke OnConnect (JObj [(''type'', JStr ''connected'')]),
                LogParseError,
                Invoke OnRouting (JObj [(''type'', JStr ''routing'')])]\<close>
    by code_simp
  show ?thesis
    by (rule trans [OF C5_malformed_line_skipped
          [where pre = \<open>[''data: {"type":"connected"}'']\<close> and bad = \<open>''data: {oops''\<close>
             and post = \<open>[''data: {"type":"routing"}'']\<close> and parse = JSON_parse,
           OF nl prefix malformed] ev])
qed

text \<open>
  A \<^verbatim>\<open>step_update\<close> envelope reaches \<^verbatim>\<open>onStepUpdate\<close> unchanged; an envelope of an
  unknown type is dropped by a bag without \<^verbatim>\<open>onUnknownEvent\<close>.
\<close>

theorem C6_dispatch_witness:
  "handleStreamEvent (JObj [(''type'', JStr ''step_update''), (''progress'', JNum 50)]) display_callbacks
     = Inr [Invoke OnStepUpdate (JObj [(''type'', JStr ''step_update''), (''progress'', JNum 50)])]
   \<and> handleStreamEvent (JObj [(''type'', JStr ''heartbeat'')]) display_callbacks = Inr []"
proof -
  have ne1: "JObj [(''type'', JStr ''step_update''), (''progress'', JNum 50)] \<noteq> JNull"
    by simp
  have ne2: "JObj [(''type'', JStr ''heartbeat'')] \<noteq> JNull"
    by simp
  have t1: "spec_target (JObj [(''type'', JStr ''step_update''), (''progress'', JNum 50)]) = OnStepUpdate"
    by code_simp
  have t2: "spec_target (JObj [(''type'', JStr ''heartbeat'')]) = OnUnknownEvent"
    by code_simp
  show ?thesis
    using conjunct1 [OF C6_dispatch [OF ne1, of display_callbacks]]
          conjunct1 [OF C6_dispatch [OF ne2, of display_callbacks]]
    by (simp only: t1 t2 display_callbacks_def simp_thms if_True if_False cbname.distinct)
qed


section \<open>The conversation history, the message store and feedback\<close>

lemma js_trim_blank: "js_trim s = [] \<longleftrightarrow> list_all is_js_space s"
proof
  assume "js_trim s = []"
  then have all: "\<forall>c \<in> set (dropWhile is_js_space s). is_js_space c"
    by (simp add: js_trim_def)
  have "dropWhile is_js_space s = []"
  proof (rule ccontr)
    assume ne: "dropWhile is_js_space s \<noteq> []"
    then have "\<not> is_js_space (hd (dropWhile is_js_space s))"
      by (rule hd_dropWhile)
    moreover from ne have "hd (dropWhile is_js_space s) \<in> set (dropWhile is_js_space s)"
      by simp
    ultimately show False using all by blast
  qed
  then show "list_all is_js_space s"
    by (simp add: list_all_iff)
next
  assume "list_all is_js_space s"
  then have "\<forall>c \<in> set (dropWhile is_js_space s). is_js_space c"
    by (auto simp: list_all_iff dest: set_dropWhileD)
  then show "js_trim s = []"
    by (simp add: js_trim_def)
qed

lemma history_filter:
  "(msg_text msg \<noteq> [] \<and> js_trim (msg_text msg) \<noteq> []) = (\<not> list_all is_js_space (msg_text msg))"
  by (cases "msg_text msg") (auto simp: js_trim_blank)

text \<open>
  Claim C7. The history builder keeps exactly the messages whose text is not empty and not
  made of whitespace only, in their order, and maps each to an entry with the role taken
  from the user flag, the text as content, and the message's tag, or \<^verbatim>\<open>unknown\<close> when the
  tag is absent (or empty). On the specification's example it yields the one entry for
  the user's \<^verbatim>\<open>hi\<close>.
\<close>

theorem C7_history:
  "buildConversationHistory msgs =
     map history_entry_of (filter (\<lambda>m. \<not> list_all is_js_space (msg_text m)) msgs)
   \<and> map content (buildConversationHistory msgs) =
       filter (\<lambda>t. \<not> list_all is_js_space t) (map msg_text msgs)
   \<and> role (history_entry_of m) = (if isUser m then ''user'' else ''assistant'')
   \<and> content (history_entry_of m) = msg_text m
   \<and> entry_request_type (history_entry_of m) =
       (case request_type m of None \<Rightarrow> ''unknown'' | Some t \<Rightarrow> if t = [] then ''unknown'' else t)
   \<and> buildConversationHistory [bare_message [] False, bare_message ''hi'' True] =
       [\<lparr>role = ''user'', content = ''hi'', entry_request_type = ''unknown''\<rparr>]"
proof -
  have a: "buildConversationHistory msgs =
     map history_entry_of (filter (\<lambda>m. \<not> list_all is_js_space (msg_text m)) msgs)"
    by (simp add: buildConversationHistory_def history_filter)
  have b: "map content (buildConversationHistory msgs) =
       filter (\<lambda>t. \<not> list_all is_js_space t) (map msg_text msgs)"
    unfolding a by (induction msgs) (simp_all add: history_entry_of_def)
  have c: "role (history_entry_of m) = (if isUser m then ''user'' else ''assistant'')"
    "content (history_entry_of m) = msg_text m"
    "entry_request_type (history_entry_of m) =
       (case request_type m of None \<Rightarrow> ''unknown'' | Some t \<Rightarrow> if t = [] then ''unknown'' else t)"
    by (simp_all add: history_entry_of_def or_str_def)
  have d: "buildConversationHistory [bare_message [] False, bare_message ''hi'' True] =
       [\<lparr>role = ''user'', content = ''hi'', entry_request_type = ''unknown''\<rparr>]"
    by (simp add: buildConversationHistory_def js_trim_def bare_message_def history_entry_of_def
          or_str_def is_js_space_def)
  from a b c d show ?thesis by blast
qed

text \<open>
  The projection written inline in \<^verbatim>\<open>sendMessage\<close> has no filter and keeps the blank
  message of the example; its result is only written to the console.
\<close>

lemma inline_projection_keeps_blank:
  "sendMessage_history [bare_message [] False, bare_message ''hi'' True] =
     [\<lparr>role = ''assistant'', content = [], entry_request_type = ''unknown''\<rparr>,
      \<lparr>role = ''user'', content = ''hi'', entry_request_type = ''unknown''\<rparr>]"
  by (simp add: sendMessage_history_def bare_message_def history_entry_of_def or_str_def)

lemma updateById_at:
  assumes d: "distinct (map msg_id msgs)" and i: "i < length msgs" and k: "msg_id (msgs ! i) = k"
  shows "updateById k p msgs = msgs[i := apply_patch p (msgs ! i)]"
proof (rule nth_equalityI)
  show "length (updateById k p msgs) = length (msgs[i := apply_patch p (msgs ! i)])"
    by (simp add: updateById_def)
next
  fix j assume "j < length (updateById k p msgs)"
  then have j: "j < length msgs" by (simp add: updateById_def)
  show "updateById k p msgs ! j = msgs[i := apply_patch p (msgs ! i)] ! j"
  proof (cases "j = i")
    case True
    with i k show ?thesis by (simp add: updateById_def)
  next
    case False
    with d i j have "map msg_id msgs ! j \<noteq> map msg_id msgs ! i"
      by (simp add: nth_eq_iff_index_eq del: nth_map)
    with i j k have "msg_id (msgs ! j) \<noteq> k" by simp
    with False i j show ?thesis by (simp add: updateById_def)
  qed
qed

lemma patch_frame: "\<not> names p f \<Longrightarrow> same_field f m (apply_patch p m)"
  by (cases f) (simp_all add: apply_patch_def override_def)

lemma apply_solution_patch:
  "apply_patch (solution_patch sol) msg =
     msg\<lparr>solution := Some sol,
         msg_text := or_str (conversational_response sol)
                       ''I've solved your math problem! Here's the solution:'',
         streaming_session_id := None\<rparr>"
  by (simp add: apply_patch_def solution_patch_def no_patch_def override_def)

lemma apply_feedback_patch:
  "apply_patch feedback_patch msg = msg\<lparr>feedbackSubmitted := True\<rparr>"
  by (simp add: apply_patch_def feedback_patch_def no_patch_def override_def)

lemma store_write_solution:
  "tutor_onSolutionComplete aid (Some sol) t =
     Inr (t\<lparr>messages := updateById aid (solution_patch sol) (messages t),
            loading := False, isProcessing := False\<rparr>)"
  by (simp add: tutor_onSolutionComplete_def updateById_def apply_solution_patch)

lemma store_write_feedback:
  "find (\<lambda>m. msg_id m = mid) (messages t) = Some m \<Longrightarrow> solution m \<noteq> None \<Longrightarrow>
   tutor_handleFeedback mid True t = t\<lparr>messages := updateById mid feedback_patch (messages t)\<rparr>"
  by (simp add: tutor_handleFeedback_def updateById_def apply_feedback_patch)

text \<open>
  Claim C9. In a store whose ids are distinct, \<open>updateById\<close> replaces the one entry with
  the given id by the patched entry and leaves every other entry as it is; a field the
  patch does not name has the same value before and after. The update is one function
  from message list to message list, so there is no state in between. The two store
  writes of \<^verbatim>\<open>ConversationalMathTutor\<close> are such updates.
\<close>

theorem C9_update_by_id:
  assumes "distinct (map msg_id msgs)" and "i < length msgs" and "msg_id (msgs ! i) = k"
    and "\<not> names p f"
    and "find (\<lambda>m. msg_id m = mid) (messages t) = Some m" and "solution m \<noteq> None"
  shows "updateById k p msgs = msgs[i := apply_patch p (msgs ! i)]
       \<and> same_field f (msgs ! i) (updateById k p msgs ! i)
       \<and> length (updateById k p msgs) = length msgs
       \<and> tutor_onSolutionComplete aid (Some sol) t =
           Inr (t\<lparr>messages := updateById aid (solution_patch sol) (messages t),
                  loading := False, isProcessing := False\<rparr>)
       \<and> tutor_handleFeedback mid True t =
           t\<lparr>messages := updateById mid feedback_patch (messages t)\<rparr>"
proof -
  have a: "updateById k p msgs = msgs[i := apply_patch p (msgs ! i)]"
    using assms(1-3) by (rule updateById_at)
  have b: "same_field f (msgs ! i) (updateById k p msgs ! i)"
    using assms(2,4) by (simp add: a patch_frame)
  have c: "length (updateById k p msgs) = length msgs"
    by (simp add: updateById_def)
  from a b c store_write_solution store_write_feedback [OF assms(5,6)] show ?thesis
    by blast
qed

lemma example_ids: "map msg_id (messages example_tutor) = [''user_1'', ''ai_1'']"
  by code_simp

lemma example_solved_find:
  "find (\<lambda>m. msg_id m = ''ai_1'') (messages example_solved) = Some (messages example_solved ! 1)"
  by code_simp

lemma example_solved_solution: "solution (messages example_solved ! 1) \<noteq> None"
  by code_simp

text \<open>
  The example's store, patched at the assistant message.
\<close>

theorem C9_update_by_id_witness:
  "updateById ''ai_1'' feedback_patch (messages example_tutor) =
     (messages example_tutor)[1 := apply_patch feedback_patch (messages example_tutor ! 1)]
   \<and> same_field F_text (messages example_tutor ! 1)
        (updateById ''ai_1'' feedback_patch (messages example_tutor) ! 1)
   \<and> length (updateById ''ai_1'' feedback_patch (messages example_tutor)) = length (messages example_tutor)
   \<and> tutor_onSolutionComplete ''ai_1'' (Some example_solution) example_solved =
       Inr (example_solved\<lparr>messages := updateById ''ai_1'' (solution_patch example_solution) (messages example_solved),
              loading := False, isProcessing := False\<rparr>)
   \<and> tutor_handleFeedback ''ai_1'' True example_solved =
       example_solved\<lparr>messages := updateById ''ai_1'' feedback_patch (messages example_solved)\<rparr>"
proof -
  have d: "distinct (map msg_id (messages example_tutor))"
    by (simp add: example_ids)
  have i: "1 < length (messages example_tutor)"
    using arg_cong [OF example_ids, of length] by simp
  have k: "msg_id (messages example_tutor ! 1) = ''ai_1''"
    using arg_cong [OF example_ids, of "\<lambda>xs. xs ! 1"] i by simp
  have n: "\<not> names feedback_patch F_text"
    by (simp add: feedback_patch_def no_patch_def)
  show ?thesis
    by (rule C9_update_by_id [OF d i k n example_solved_find example_solved_solution])
qed

lemma feedback_accepted:
  assumes found: "find (\<lambda>m. msg_id m = mid) (chat_messages s) = Some m0"
    and ok: "\<And>req. submitFeedback req = Inr (respond req)"
  shows "handleInternalFeedback mid fd submitFeedback s =
           s\<lparr>internalMessages :=
               map (\<lambda>msg. if msg_id msg = mid
                          then msg\<lparr>feedbackSubmitted := True,
                                  feedbackDetails :=
                                    Some \<lparr>rating = user_rating fd,
                                          improvement_triggered = (user_rating fd \<le> 2)\<rparr>\<rparr>
                          else msg) (internalMessages s)\<rparr>"
  unfolding handleInternalFeedback_def found ok by simp


lemma feedback_entry:
  assumes "msg \<in> set (map (\<lambda>m. if msg_id m = mid then g m else m) ms)" and "msg_id msg = mid"
    and "\<And>m. msg_id (g m) = msg_id m"
  shows "\<exists>m. msg = g m"
  using assms by (induction ms) (auto split: if_splits)

text \<open>
  Claim C10. When the message exists and the feedback request is accepted, every message
  with the given id ends up marked as submitted, with the rating and with
  \<open>improvement_triggered\<close> true exactly when the rating is at most 2; and the resulting
  state is the same whatever the endpoint answers.
\<close>

theorem C10_improvement_flag:
  assumes found: "find (\<lambda>m. msg_id m = mid) (chat_messages s) = Some m0"
    and ok: "\<And>req. submitFeedback req = Inr (respond req)"
    and ok': "\<And>req. submitFeedback' req = Inr (respond' req)"
    and upd: "msg \<in> set (internalMessages (handleInternalFeedback mid fd submitFeedback s))"
    and mid: "msg_id msg = mid"
  shows "feedbackSubmitted msg
       \<and> feedbackDetails msg =
           Some \<lparr>rating = user_rating fd, improvement_triggered = (user_rating fd \<le> 2)\<rparr>
       \<and> (improvement_triggered (the (feedbackDetails msg)) \<longleftrightarrow> user_rating fd \<le> 2)
       \<and> handleInternalFeedback mid fd submitFeedback' s = handleInternalFeedback mid fd submitFeedback s"
proof -
  have eq: "handleInternalFeedback mid fd submitFeedback' s = handleInternalFeedback mid fd submitFeedback s"
    unfolding feedback_accepted [OF found ok] feedback_accepted [OF found ok'] ..
  from upd have "msg \<in> set (map (\<lambda>m. if msg_id m = mid
                          then m\<lparr>feedbackSubmitted := True,
                                  feedbackDetails :=
                                    Some \<lparr>rating = user_rating fd,
                                          improvement_triggered = (user_rating fd \<le> 2)\<rparr>\<rparr>
                          else m) (internalMessages s))"
    unfolding feedback_accepted [OF found ok] by simp
  from feedback_entry [OF this mid] obtain m where
    "msg = m\<lparr>feedbackSubmitted := True,
              feedbackDetails := Some \<lparr>rating = user_rating fd,
                                       improvement_triggered = (user_rating fd \<le> 2)\<rparr>\<rparr>"
    by auto
  then have "feedbackSubmitted msg \<and> feedbackDetails msg =
           Some \<lparr>rating = user_rating fd, improvement_triggered = (user_rating fd \<le> 2)\<rparr>"
    by simp
  with eq show ?thesis by simp
qed

text \<open>
  A rating of 2 sets the flag although the endpoint answers that nothing was triggered.
\<close>

theorem C10_improvement_flag_witness:
  "feedbackDetails
     (internalMessages
        (handleInternalFeedback ''ai_1'' \<lparr>user_rating = 2, user_comment = None\<rparr>
           accepting_endpoint example_chat) ! 1)
   = Some \<lparr>rating = 2, improvement_triggered = True\<rparr>"
proof -
  have found: "find (\<lambda>m. msg_id m = ''ai_1'') (chat_messages example_chat)
                 = Some (messages example_solved ! 1)"
    by code_simp
  have ok: "\<And>req. accepting_endpoint req = Inr ((\<lambda>r. JObj [(''improvement_triggered'', JBool False)]) req)"
    by (simp add: accepting_endpoint_def)
  have upd: "internalMessages
        (handleInternalFeedback ''ai_1'' \<lparr>user_rating = 2, user_comment = None\<rparr>
           accepting_endpoint example_chat) ! 1
      \<in> set (internalMessages
        (handleInternalFeedback ''ai_1'' \<lparr>user_rating = 2, user_comment = None\<rparr>
           accepting_endpoint example_chat))"
    by code_simp
  have mid: "msg_id (internalMessages
        (handleInternalFeedback ''ai_1'' \<lparr>user_rating = 2, user_comment = None\<rparr>
           accepting_endpoint example_chat) ! 1) = ''ai_1''"
    by code_simp
  from C10_improvement_flag [OF found ok ok upd mid] show ?thesis
    by simp
qed


section \<open>The progress of a session\<close>

lemma progress_trace_append:
  "progress_trace d (xs @ ys) =
     progress_trace d xs @ progress_trace (foldl (\<lambda>d ev. display_deliver (fst ev) (snd ev) d) d xs) ys"
  by (induction xs arbitrary: d) simp_all

lemma trace_updates:
  "progress_trace d (map (Pair OnStepUpdate) us) = map (\<lambda>u. Fin (or_num (p_progress u) 50)) us"
  by (induction us arbitrary: d) (simp_all add: display_onStepUpdate_def)

lemma trace_steps:
  "n \<noteq> 0 \<Longrightarrow>
   progress_trace d (map (step_generated_event n) ks) =
     map (\<lambda>k. Fin (50 + (of_nat k / of_nat n) * 30)) ks"
  by (induction ks arbitrary: d)
     (simp_all add: step_generated_event_def display_onStepGenerated_def step_progress_def)

text \<open>
  Every event of a question sets the progress to a value of its own, whatever the state:
  the progress after each event is the list of those values.
\<close>

lemma trace_question:
  "progress_trace d (question_events started routing' routed updates n completion' completed) =
     map Fin (question_progress updates n completion')"
proof (cases "n = 0")
  case True
  then show ?thesis
    by (simp add: question_events_def question_progress_def progress_trace_append trace_updates
          display_onProcessingStart_def display_onRouting_def display_onRoutingResult_def
          display_onCompletion_def display_onSolutionComplete_def)
next
  case False
  then show ?thesis
    by (simp del: upt_Suc add: question_events_def question_progress_def progress_trace_append
          trace_updates trace_steps display_onProcessingStart_def display_onRouting_def
          display_onRoutingResult_def display_onCompletion_def display_onSolutionComplete_def)
qed

lemma nondecreasing_Fin: "nondecreasing (map Fin vs) = sorted vs"
  by (induction vs rule: induct_list012) (auto intro: order_trans)

lemma step_value_bounds:
  assumes "k \<in> set [1..<Suc n]"
  shows "(50::rat) < 50 + (of_nat k / of_nat n) * 30 \<and> 50 + (of_nat k / of_nat n) * 30 \<le> (80::rat)"
proof -
  define q :: rat where "q = of_nat k / of_nat n"
  from assms have k: "0 < k" "k \<le> n" and n: "0 < n" by auto
  then have "0 < q" by (simp add: q_def)
  moreover from k n have "q \<le> 1" by (simp add: q_def)
  ultimately have "50 < 50 + q * 30 \<and> 50 + q * 30 \<le> 80" by simp
  then show ?thesis by (simp only: q_def)
qed

lemma step_values_sorted: "sorted (map (\<lambda>k. 50 + (of_nat k / of_nat n) * 30 :: rat) [1..<Suc n])"
proof -
  have "sorted_wrt (\<lambda>x y. (50 + (of_nat x / of_nat n) * 30 :: rat) \<le> 50 + (of_nat y / of_nat n) * 30) [1..<Suc n]"
  proof (rule sorted_wrt_mono_rel [where P = "(\<le>)"])
    show "sorted_wrt (\<le>) [1..<Suc n]" by (simp del: upt_Suc)
  next
    fix x y :: nat assume "x \<le> y"
    then have "(of_nat x / of_nat n :: rat) \<le> of_nat y / of_nat n"
      by (simp add: divide_right_mono)
    moreover have "a \<le> b \<Longrightarrow> 50 + a * 30 \<le> 50 + b * 30" for a b :: rat
      by simp
    ultimately show "(50 + (of_nat x / of_nat n) * 30 :: rat) \<le> 50 + (of_nat y / of_nat n) * 30"
      by blast
  qed
  then show ?thesis by (simp only: sorted_map)
qed

lemma sorted_segments:
  fixes us gs :: "rat list" and c :: rat
  assumes "sorted us" and "sorted gs"
    and us: "\<forall>v \<in> set us. 40 \<le> v \<and> v \<le> 50"
    and gs: "\<forall>v \<in> set gs. 50 < v \<and> v \<le> 80"
    and c: "80 \<le> c" "c \<le> 100"
  shows "sorted ([10, 25, 40] @ us @ gs @ [c, 100])"
proof -
  have tail: "sorted (gs @ [c, 100])"
    using assms(2) gs c by (fastforce simp: sorted_append)
  have "\<forall>x \<in> set us. \<forall>y \<in> set (gs @ [c, 100]). x \<le> y"
    using us gs c by fastforce
  with assms(1) tail have mid: "sorted (us @ gs @ [c, 100])"
    by (simp add: sorted_append)
  have "\<forall>x \<in> set [10, 25, 40]. \<forall>y \<in> set (us @ gs @ [c, 100]). x \<le> y"
    using us gs c by fastforce
  moreover have "sorted [10, 25, 40 :: rat]" by simp
  ultimately show ?thesis
    using mid by (simp add: sorted_append)
qed

lemma question_progress_sorted:
  assumes U: "\<forall>u \<in> set updates. 40 \<le> or_num (p_progress u) 50 \<and> or_num (p_progress u) 50 \<le> 50"
    and S: "sorted (map (\<lambda>u. or_num (p_progress u) 50) updates)"
    and C: "80 \<le> or_num (p_progress completion') 95" "or_num (p_progress completion') 95 \<le> 100"
  shows "sorted (question_progress updates n completion')"
proof -
  have us: "\<forall>v \<in> set (map (\<lambda>u. or_num (p_progress u) 50) updates). 40 \<le> v \<and> v \<le> 50"
    using U by auto
  have gs: "\<forall>v \<in> set (map (\<lambda>k. 50 + (of_nat k / of_nat n) * 30 :: rat) [1..<Suc n]). 50 < v \<and> v \<le> 80"
    using step_value_bounds [of _ n] by auto
  show ?thesis
    unfolding question_progress_def
    by (rule sorted_segments [OF S step_values_sorted us gs C])
qed

lemma question_progress_range:
  assumes U: "\<forall>u \<in> set updates. 40 \<le> or_num (p_progress u) 50 \<and> or_num (p_progress u) 50 \<le> 50"
  shows "\<forall>v \<in> set (map (\<lambda>u. or_num (p_progress u) 50) updates
                      @ map (\<lambda>k. 50 + (of_nat k / of_nat n) * 30) [1..<Suc n]).
           40 \<le> v \<and> v \<le> 80"
proof -
  have "\<forall>v \<in> set (map (\<lambda>k. 50 + (of_nat k / of_nat n) * 30 :: rat) [1..<Suc n]). 50 < v \<and> v \<le> 80"
    using step_value_bounds [of _ n] by auto
  with U show ?thesis by fastforce
qed

text \<open>
  Claim C2, as the code has it. The progress of a step update and of the completion event
  is whatever the envelope carries (50 and 95 when it carries none, or zero). When the
  values of the step updates lie between 40 and 50 and do not decrease, and the value of
  the completion event lies between 80 and 100, the progress over the events of one
  question never decreases: 10, 25, 40, the step updates, \<open>50 + 30 k / n\<close> for step
  \<open>k\<close> of \<open>n\<close>, the completion value, 100; the values during the steps lie between 40
  and 80.
\<close>

theorem C2_progress_nondecreasing:
  assumes U: "\<forall>u \<in> set updates. 40 \<le> or_num (p_progress u) 50 \<and> or_num (p_progress u) 50 \<le> 50"
    and S: "sorted (map (\<lambda>u. or_num (p_progress u) 50) updates)"
    and C: "80 \<le> or_num (p_progress completion') 95" "or_num (p_progress completion') 95 \<le> 100"
  shows "progress_trace d (question_events started routing' routed updates n completion' completed)
           = map Fin (question_progress updates n completion')
       \<and> nondecreasing
           (progress_trace d (question_events started routing' routed updates n completion' completed))
       \<and> sorted (question_progress updates n completion')
       \<and> (\<forall>v \<in> set (map (\<lambda>u. or_num (p_progress u) 50) updates
                         @ map (\<lambda>k. 50 + (of_nat k / of_nat n) * 30) [1..<Suc n]).
              40 \<le> v \<and> v \<le> 80)"
proof -
  have s: "sorted (question_progress updates n completion')"
    using U S C by (rule question_progress_sorted)
  then have "nondecreasing
           (progress_trace d (question_events started routing' routed updates n completion' completed))"
    by (simp only: trace_question nondecreasing_Fin)
  with s trace_question question_progress_range [OF U] show ?thesis by blast
qed

text \<open>
  Two step updates (45, then none) and two steps: 10, 25, 40, 45, 50, 65, 80, 95, 100.
\<close>

theorem C2_progress_nondecreasing_witness:
  "progress_trace (display_start display_init)
     (question_events no_payload no_payload no_payload
        [no_payload\<lparr>p_progress := Some 45\<rparr>, no_payload] 2 no_payload no_payload)
     = [Fin 10, Fin 25, Fin 40, Fin 45, Fin 50, Fin 65, Fin 80, Fin 95, Fin 100]
   \<and> nondecreasing
       (progress_trace (display_start display_init)
          (question_events no_payload no_payload no_payload
             [no_payload\<lparr>p_progress := Some 45\<rparr>, no_payload] 2 no_payload no_payload))"
proof -
  have U: "\<forall>u \<in> set [no_payload\<lparr>p_progress := Some 45\<rparr>, no_payload].
             40 \<le> or_num (p_progress u) 50 \<and> or_num (p_progress u) 50 \<le> 50"
    by (simp add: or_num_def no_payload_def)
  have S: "sorted (map (\<lambda>u. or_num (p_progress u) 50) [no_payload\<lparr>p_progress := Some 45\<rparr>, no_payload])"
    by (simp add: or_num_def no_payload_def)
  have C: "80 \<le> or_num (p_progress no_payload) 95" "or_num (p_progress no_payload) 95 \<le> 100"
    by (simp_all add: or_num_def no_payload_def)
  have vals: "map Fin (question_progress [no_payload\<lparr>p_progress := Some 45\<rparr>, no_payload] 2 no_payload)
                = [Fin 10, Fin 25, Fin 40, Fin 45, Fin 50, Fin 65, Fin 80, Fin 95, Fin 100]"
    by code_simp
  note inst = C2_progress_nondecreasing [OF U S C, of "display_start display_init" no_payload
         no_payload no_payload 2 no_payload]
  have t: "progress_trace (display_start display_init)
     (question_events no_payload no_payload no_payload
        [no_payload\<lparr>p_progress := Some 45\<rparr>, no_payload] 2 no_payload no_payload)
     = [Fin 10, Fin 25, Fin 40, Fin 45, Fin 50, Fin 65, Fin 80, Fin 95, Fin 100]"
    by (rule trans [OF conjunct1 [OF inst] vals])
  show ?thesis
    by (rule conjI [OF t conjunct1 [OF conjunct2 [OF inst]]])
qed

text \<open>
  Claim C2 as stated fails. A step update that carries the progress 5, a value the wire
  protocol allows, takes the progress from 40 down to 5.
\<close>

theorem C2_step_update_counterexample:
  "progress_trace (display_start display_init)
     (question_events no_payload no_payload no_payload
        [no_payload\<lparr>p_progress := Some 5\<rparr>] 1 no_payload no_payload)
     = [Fin 10, Fin 25, Fin 40, Fin 5, Fin 80, Fin 95, Fin 100]
   \<and> \<not> nondecreasing
       (progress_trace (display_start display_init)
          (question_events no_payload no_payload no_payload
             [no_payload\<lparr>p_progress := Some 5\<rparr>] 1 no_payload no_payload))"
  by code_simp


section \<open>A second question while a session is live\<close>

lemma send_while_processing: "isProcessing t \<Longrightarrow> sendMessage now q t = t"
  by (simp add: sendMessage_def)

lemma send_cancels_stored:
  assumes "js_trim q \<noteq> []" and "streamCleanupRef s = Some r"
  shows "transport_log (handleInternalSendMessage now q s) =
           transport_log s
             @ [CancelReader r,
                OpenStream (length (filter is_open (transport_log s))) (js_trim q)
                  (chat_sessionId s) (buildConversationHistory (internalMessages s))]"
  using assms by (simp add: handleInternalSendMessage_def Let_def)

lemma cancelled_readers_append:
  "cancelled_readers (xs @ ys) = cancelled_readers xs @ cancelled_readers ys"
  by (induction xs rule: cancelled_readers.induct) simp_all

text \<open>
  Claim C3, as the code has it. While a question is being processed,
  \<^verbatim>\<open>sendMessage\<close> ignores a further question, and the chat input passes none on while
  the interface is loading or streaming. When \<^verbatim>\<open>handleInternalSendMessage\<close> does take a
  question and a cleanup function is stored, it calls that function once and then opens
  the next connection: the log grows by the cancel of the stored reader followed by the
  open.
\<close>

theorem C3_gate_and_cancel:
  assumes "isProcessing t" and "js_trim q \<noteq> []" and "streamCleanupRef s = Some r"
    and "loading' \<or> streamingActive"
  shows "sendMessage now' q' t = t
       \<and> handleSubmit input loading' streamingActive = None
       \<and> transport_log (handleInternalSendMessage now q s) =
           transport_log s
             @ [CancelReader r,
                OpenStream (length (filter is_open (transport_log s))) (js_trim q)
                  (chat_sessionId s) (buildConversationHistory (internalMessages s))]
       \<and> cancelled_readers (transport_log (handleInternalSendMessage now q s)) =
           cancelled_readers (transport_log s) @ [r]"
proof -
  have a: "sendMessage now' q' t = t"
    using assms(1) by (rule send_while_processing)
  have b: "handleSubmit input loading' streamingActive = None"
    using assms(4) by (auto simp: handleSubmit_def)
  note c = send_cancels_stored [OF assms(2,3), of now]
  have d: "cancelled_readers (transport_log (handleInternalSendMessage now q s)) =
           cancelled_readers (transport_log s) @ [r]"
    by (simp add: c cancelled_readers_append)
  from a b c d show ?thesis by blast
qed

text \<open>
  A second question after the first connection has been established: reader 0 is
  cancelled once; in the tutor, and in the input while loading, it is not taken at all.
\<close>

theorem C3_gate_and_cancel_witness:
  "sendMessage 2 ''q2'' example_tutor = example_tutor
   \<and> handleSubmit ''q2'' True False = None
   \<and> cancelled_readers
       (transport_log
          (handleInternalSendMessage 2 ''q2''
             (foldl chat_step (chat_init ''s1'') [Submit 1 ''q1'', Connected 0]))) = [0]"
proof -
  have p: "isProcessing example_tutor"
    by code_simp
  have q: "js_trim ''q2'' \<noteq> []"
    by code_simp
  have r: "streamCleanupRef (foldl chat_step (chat_init ''s1'') [Submit 1 ''q1'', Connected 0]) = Some 0"
    by code_simp
  have l: "True \<or> False"
    by simp
  have before: "cancelled_readers
       (transport_log (foldl chat_step (chat_init ''s1'') [Submit 1 ''q1'', Connected 0])) @ [0] = [0]"
    by code_simp
  note inst = C3_gate_and_cancel [OF p q r l, of 2 "''q2''" "''q2''" 2]
  show ?thesis
    using conjunct1 [OF inst] conjunct1 [OF conjunct2 [OF inst]]
      trans [OF conjunct2 [OF conjunct2 [OF conjunct2 [OF inst]]] before]
    by blast
qed

text \<open>
  Claim C3 as stated fails. In the tutor a second question sent while the first is live
  changes nothing: the first session stays live and nothing is cancelled. In the chat
  interface a second question taken before the first connection is established opens a
  second connection with no cancel: no cleanup function is stored yet.
\<close>

theorem C3_second_question_counterexample:
  "sendMessage 2 ''q2'' example_tutor = example_tutor
   \<and> map msg_id (streaming_messages (messages example_tutor)) = [''ai_1'']
   \<and> opened_connections
        (transport_log (foldl chat_step (chat_init ''s1'') [Submit 1 ''q1'', Submit 2 ''q2''])) = [0, 1]
   \<and> cancelled_readers
        (transport_log (foldl chat_step (chat_init ''s1'') [Submit 1 ''q1'', Submit 2 ''q2''])) = []"
  by code_simp


section \<open>Envelopes after a terminal event\<close>

lemma app_deliver_other:
  "fst ev \<noteq> OnSolutionComplete \<Longrightarrow>
   app_deliver m ev a = Inr (a\<lparr>app_display := display_deliver (fst ev) (snd ev) (app_display a)\<rparr>)"
  by (simp add: app_deliver_def Let_def)

lemma app_run_others:
  "\<forall>ev \<in> set evs. fst ev \<noteq> OnSolutionComplete \<Longrightarrow>
   \<exists>d'. app_run m evs a = Inr (a\<lparr>app_display := d'\<rparr>)"
proof (induction evs arbitrary: a)
  case Nil
  have "a = a\<lparr>app_display := app_display a\<rparr>" by simp
  then show ?case by (metis app_run.simps(1))
next
  case (Cons ev evs)
  then have "fst ev \<noteq> OnSolutionComplete" by simp
  then have step: "app_deliver m ev a =
      Inr (a\<lparr>app_display := display_deliver (fst ev) (snd ev) (app_display a)\<rparr>)"
    by (rule app_deliver_other)
  from Cons obtain d' where
    "app_run m evs (a\<lparr>app_display := display_deliver (fst ev) (snd ev) (app_display a)\<rparr>)
       = Inr (a\<lparr>app_display := display_deliver (fst ev) (snd ev) (app_display a)\<rparr>\<lparr>app_display := d'\<rparr>)"
    by fastforce
  with step show ?case by (simp del: app.update_convs) (metis app.surjective app.update_convs(1))
qed

lemma app_run_append:
  "app_run m (xs @ ys) a = (case app_run m xs a of Inl e \<Rightarrow> Inl e | Inr a' \<Rightarrow> app_run m ys a')"
  by (induction xs arbitrary: a) (simp_all split: sum.splits)

lemma app_deliver_complete:
  assumes "onSolutionComplete m = Some aid" and "p_data data = Some sol"
  shows "app_deliver m (OnSolutionComplete, data) a =
           Inr (a\<lparr>app_display := display_onSolutionComplete data (app_display a),
                  app_tutor := (app_tutor a)\<lparr>messages := updateById aid (solution_patch sol)
                                                             (messages (app_tutor a)),
                                            loading := False, isProcessing := False\<rparr>,
                  app_bubble := \<lparr>showStreamingSolution = False, streamingSessionId = None\<rparr>\<rparr>)"
  using assms
  by (simp add: app_deliver_def Let_def handleStreamingComplete_def store_write_solution)


text \<open>
  Claim C4, as the code has it. The callbacks look at no phase. Whatever has been
  processed before, envelopes other than \<^verbatim>\<open>solution_complete\<close> leave the message store and
  the bubble as they are, and a \<^verbatim>\<open>solution_complete\<close> envelope that follows patches the
  owning message (solution, text, streaming session id) and makes the bubble stop showing
  the display. No callback cancels the reader; the display's effect cleanup does, when
  a cleanup function has been stored.
\<close>

theorem C4_only_completion_mutates:
  assumes others: "\<forall>ev \<in> set evs. fst ev \<noteq> OnSolutionComplete"
    and owner: "onSolutionComplete m = Some aid"
    and data: "p_data data = Some sol"
  shows "store_after m evs a = Some (messages (app_tutor a))
       \<and> store_after m (evs @ [(OnSolutionComplete, data)]) a =
           Some (updateById aid (solution_patch sol) (messages (app_tutor a)))
       \<and> map_sum id app_bubble (app_run m evs a) = Inr (app_bubble a)
       \<and> map_sum id (display_shown \<circ> app_bubble) (app_run m (evs @ [(OnSolutionComplete, data)]) a)
           = Inr False
       \<and> display_cleanup None = []
       \<and> display_cleanup (Some r) = [CancelReader r]"
proof -
  from app_run_others [OF others] obtain d' where run: "app_run m evs a = Inr (a\<lparr>app_display := d'\<rparr>)"
    by blast
  have a: "store_after m evs a = Some (messages (app_tutor a))"
    by (simp add: store_after_def run)
  have b: "map_sum id app_bubble (app_run m evs a) = Inr (app_bubble a)"
    by (simp add: run)
  have last: "app_run m (evs @ [(OnSolutionComplete, data)]) a =
                app_deliver m (OnSolutionComplete, data) (a\<lparr>app_display := d'\<rparr>)"
    by (simp add: app_run_append run split: sum.splits)
  have c: "store_after m (evs @ [(OnSolutionComplete, data)]) a =
           Some (updateById aid (solution_patch sol) (messages (app_tutor a)))"
    by (simp add: store_after_def last app_deliver_complete [OF owner data])
  have d: "map_sum id (display_shown \<circ> app_bubble) (app_run m (evs @ [(OnSolutionComplete, data)]) a)
           = Inr False"
    by (simp add: last app_deliver_complete [OF owner data] display_shown_def)
  have e: "display_cleanup None = []" "display_cleanup (Some r) = [CancelReader r]"
    by (simp_all add: display_cleanup_def)
  from a b c d e show ?thesis by blast
qed

text \<open>
  The example: an \<^verbatim>\<open>error\<close> envelope leaves the store alone, the \<^verbatim>\<open>solution_complete\<close>
  envelope after it patches the assistant message.
\<close>

theorem C4_only_completion_mutates_witness:
  "store_after example_owner [example_error] example_app = Some (messages (app_tutor example_app))
   \<and> store_after example_owner ([example_error] @ [(OnSolutionComplete, snd example_complete)]) example_app
       = Some (updateById ''ai_1'' (solution_patch example_solution) (messages (app_tutor example_app)))"
proof -
  have others: "\<forall>ev \<in> set [example_error]. fst ev \<noteq> OnSolutionComplete"
    by (simp add: example_error_def)
  have owner: "onSolutionComplete example_owner = Some ''ai_1''"
    by code_simp
  have data: "p_data (snd example_complete) = Some example_solution"
    by code_simp
  note inst = C4_only_completion_mutates [OF others owner data, of example_app]
  show ?thesis
    using conjunct1 [OF inst] conjunct1 [OF conjunct2 [OF inst]] by blast
qed

text \<open>
  Claim C4 as stated fails. After an \<^verbatim>\<open>error\<close> envelope the display has stopped
  streaming, yet the \<^verbatim>\<open>solution_complete\<close> envelope processed next sets the owning
  message's solution and clears its streaming session id.
\<close>

theorem C4_after_error_counterexample:
  "map_sum id (isStreaming \<circ> app_display) (app_run example_owner [example_error] example_app)
     = Inr False
   \<and> map_option (map solution) (store_after example_owner [example_error] example_app)
     = Some [None, None]
   \<and> map_option (map solution)
       (store_after example_owner [example_error, example_complete] example_app)
     = Some [None, Some example_solution]
   \<and> map_option (map streaming_session_id) (store_after example_owner [example_error] example_app)
     = Some [None, Some ''s1'']
   \<and> map_option (map streaming_session_id)
       (store_after example_owner [example_error, example_complete] example_app)
     = Some [None, None]"
  by code_simp

end
